theory Spec2Isabelle
  imports Complex_Main
begin

text \<open>
  A model of \<^verbatim>\<open>news.py\<close>: a single run fetches a feed, keeps the entries of the last
  24 hours, extracts the text of the linked pages, asks a summarizer for a narrative,
  has it read aloud, and posts the audio, or else the text, to a chat.

  Each function of the source is a function of the same name here. What the source takes
  from outside (the network, the feed parser, the HTML parser, the clock, the random
  choice) is a field of an environment; what it does to the outside is appended to a
  trace. A function that can let an exception out returns a sum, \<open>Inl\<close> the exception;
  a function whose \<^verbatim>\<open>try\<close> catches everything returns \<open>None\<close> as the source does.
\<close>

section \<open>Python values\<close>

text \<open>
  A Python \<^verbatim>\<open>str\<close> is a sequence of code points, and \<^verbatim>\<open>len\<close>, slicing and
  \<^verbatim>\<open>split\<close> count code points. It is modelled as a list of naturals, so that a
  character outside the 8-bit range is still one element. \<open>lit\<close> embeds the literals
  of the source. \<^verbatim>\<open>bytes\<close> are lists of 8-bit characters.
\<close>

type_synonym pystr = "nat list"

type_synonym bytes = "char list"

definition lit :: "string \<Rightarrow> pystr" where
  "lit s = map of_char s"

text \<open>
  \<^verbatim>\<open>str.isspace\<close> on one character: the code points Python 3 treats as white
  space. \<^verbatim>\<open>str.strip()\<close> removes them from both ends.
\<close>

definition isspace :: "nat \<Rightarrow> bool" where
  "isspace c \<longleftrightarrow>
     (9 \<le> c \<and> c \<le> 13) \<or> (28 \<le> c \<and> c \<le> 32) \<or> c = 133 \<or> c = 160 \<or> c = 5760 \<or>
     (8192 \<le> c \<and> c \<le> 8202) \<or> c = 8232 \<or> c = 8233 \<or> c = 8239 \<or> c = 8287 \<or> c = 12288"

definition strip :: "pystr \<Rightarrow> pystr" where
  "strip s = rev (dropWhile isspace (rev (dropWhile isspace s)))"

text \<open>
  \<^verbatim>\<open>str.upper()\<close>: on a pure ASCII string it maps a..z to A..Z. On any other string
  the result follows the Unicode case tables, which are taken as a parameter
  (\<open>unicode_upper\<close>, the library's function).
\<close>

definition ascii_upper :: "nat \<Rightarrow> nat" where
  "ascii_upper c = (if 97 \<le> c \<and> c \<le> 122 then c - 32 else c)"

definition upper :: "(pystr \<Rightarrow> pystr) \<Rightarrow> pystr \<Rightarrow> pystr" where
  "upper unicode_upper s =
     (if list_all (\<lambda>c. c < 128) s then map ascii_upper s else unicode_upper s)"

text \<open>\<^verbatim>\<open>str(n)\<close> for a non-negative integer: its decimal digits.\<close>

fun str_nat :: "nat \<Rightarrow> pystr" where
  "str_nat n = (if n < 10 then [48 + n] else str_nat (n div 10) @ [48 + n mod 10])"

declare str_nat.simps [simp del]

text \<open>The values \<^verbatim>\<open>json.loads\<close> and \<^verbatim>\<open>response.json()\<close> produce, and \<^verbatim>\<open>json.dumps\<close> consumes.
  A dict is an association list whose keys are distinct.\<close>

datatype jsonval =
    JNull
  | JBool bool
  | JInt int
  | JFloat rat
  | JStr pystr
  | JList "jsonval list"
  | JDict "(pystr \<times> jsonval) list"

text \<open>Python's truth value of such an object (\<^verbatim>\<open>if x:\<close>).\<close>

fun truthy :: "jsonval \<Rightarrow> bool" where
  "truthy JNull = False"
| "truthy (JBool b) = b"
| "truthy (JInt i) = (i \<noteq> 0)"
| "truthy (JFloat q) = (q \<noteq> 0)"
| "truthy (JStr s) = (s \<noteq> [])"
| "truthy (JList xs) = (xs \<noteq> [])"
| "truthy (JDict kvs) = (kvs \<noteq> [])"

section \<open>Exceptions\<close>

text \<open>
  The exceptions the program can meet. \<open>request_error\<close> are the transport failures
  of the \<^verbatim>\<open>requests\<close> library, all of them subclasses of
  \<^verbatim>\<open>requests.exceptions.RequestException\<close>. \<open>HTTPError\<close> is what
  \<^verbatim>\<open>raise_for_status\<close> raises; \<open>RequestsJSONDecodeError\<close> is the decode error of
  recent versions of \<^verbatim>\<open>requests\<close>, a subclass of both \<^verbatim>\<open>RequestException\<close> and
  \<^verbatim>\<open>json.JSONDecodeError\<close>; \<open>JSONDecodeError\<close> is the plain one.
\<close>

datatype request_error = ConnectionError | Timeout | TooManyRedirects | OtherRequestError

datatype py_exn =
    RequestError request_error
  | HTTPError int
  | RequestsJSONDecodeError
  | JSONDecodeError
  | ValueError
  | TypeError
  | KeyError
  | IndexError
  | AttributeError
  | OverflowError
  | OtherException

fun is_RequestException :: "py_exn \<Rightarrow> bool" where
  "is_RequestException (RequestError e) = True"
| "is_RequestException (HTTPError s) = True"
| "is_RequestException RequestsJSONDecodeError = True"
| "is_RequestException e = False"

fun is_JSONDecodeError :: "py_exn \<Rightarrow> bool" where
  "is_JSONDecodeError RequestsJSONDecodeError = True"
| "is_JSONDecodeError JSONDecodeError = True"
| "is_JSONDecodeError e = False"

section \<open>Configuration and constants\<close>

record config =
  BOT_TOKEN :: pystr
  CHAT_ID :: pystr
  DS_API_KEY :: pystr
  ELEVENLABS_API_KEY :: pystr
  ELEVENLABS_VOICE_ID :: pystr

definition TELEGRAM_API_BASE_URL :: "config \<Rightarrow> pystr" where
  "TELEGRAM_API_BASE_URL cfg = lit ''https://api.telegram.org/bot'' @ BOT_TOKEN cfg"

definition TELEGRAM_SEND_MESSAGE_URL :: "config \<Rightarrow> pystr" where
  "TELEGRAM_SEND_MESSAGE_URL cfg = TELEGRAM_API_BASE_URL cfg @ lit ''/sendMessage''"

definition TELEGRAM_SEND_AUDIO_URL :: "config \<Rightarrow> pystr" where
  "TELEGRAM_SEND_AUDIO_URL cfg = TELEGRAM_API_BASE_URL cfg @ lit ''/sendAudio''"

definition DS_API_URL :: pystr where
  "DS_API_URL = lit ''https://api.deepseek.com/chat/completions''"

definition ELEVENLABS_API_URL :: "config \<Rightarrow> pystr" where
  "ELEVENLABS_API_URL cfg =
     lit ''https://api.elevenlabs.io/v1/text-to-speech/'' @ ELEVENLABS_VOICE_ID cfg"

definition USER_AGENTS :: "pystr list" where
  "USER_AGENTS =
    [lit ''Mozilla/5.0 (Windows NT 10.0; Win64; x64) AppleWebKit/537.36 (KHTML, like Gecko) Chrome/91.0.4472.124 Safari/537.36'',
     lit ''Mozilla/5.0 (X11; Linux x86_64) AppleWebKit/537.36 (KHTML, like Gecko) Chrome/92.0.4515.107 Safari/537.36'',
     lit ''Mozilla/5.0 (Windows NT 10.0; Win64; x64; rv:90.0) Gecko/20100101 Firefox/90.0'',
     lit ''Mozilla/5.0 (Macintosh; Intel Mac OS X 10_15_7) AppleWebKit/605.1.15 (KHTML, like Gecko) Version/14.1.2 Safari/605.1.15'']"

section \<open>Requests, responses and the trace of effects\<close>

text \<open>
  A response of the \<^verbatim>\<open>requests\<close> library: its status, its body, and what
  \<^verbatim>\<open>response.json()\<close> gives (the decoded body, or the exception it raises).
  Its truth value is \<^verbatim>\<open>response.ok\<close>: no 4xx or 5xx status.
\<close>

record response =
  status_code :: int
  content :: bytes
  json :: "py_exn + jsonval"

definition raise_for_status :: "response \<Rightarrow> py_exn + unit" where
  "raise_for_status r =
     (if 400 \<le> status_code r \<and> status_code r < 600 then Inl (HTTPError (status_code r))
      else Inr ())"

definition response_bool :: "response \<Rightarrow> bool" where
  "response_bool r = (case raise_for_status r of Inl e \<Rightarrow> False | Inr u \<Rightarrow> True)"

datatype http_verb = GET | POST

text \<open>
  What is passed to \<^verbatim>\<open>requests.get\<close> or \<^verbatim>\<open>requests.post\<close> beside the URL, the
  headers and the timeout: \<^verbatim>\<open>data=json.dumps(v)\<close>, \<^verbatim>\<open>data=\<close> a dict of form fields,
  \<^verbatim>\<open>json=v\<close>, or \<^verbatim>\<open>files=\<close> (name, file name, bytes, MIME type) with \<^verbatim>\<open>data=\<close>.
\<close>

datatype req_body =
    NoBody
  | Data_dumps jsonval
  | Data_form "(pystr \<times> pystr) list"
  | Json_kw jsonval
  | Multipart "(pystr \<times> pystr \<times> bytes \<times> pystr) list" "(pystr \<times> pystr) list"

record request =
  verb :: http_verb
  url :: pystr
  headers :: "(pystr \<times> pystr) list"
  timeout :: nat
  body :: req_body

text \<open>
  Everything the program does to the outside is recorded in a trace, in order: a log
  record (level, the message as the source writes it, and the values it interpolates),
  a line on the error stream, a call of \<^verbatim>\<open>feedparser.parse\<close> (URL and agent), an
  HTTP request, a pause.
\<close>

datatype level = INFO | WARNING | ERROR | CRITICAL

datatype logarg =
    AStr pystr
  | ANat nat
  | AInt int
  | AExn py_exn
  | AJson jsonval
  | AResponseText response

datatype event =
    Log level string "logarg list"
  | Print_stderr string
  | Feedparser_parse pystr pystr
  | Request request
  | Sleep nat

text \<open>The state threaded through the program: the trace so far, and how many times
  \<^verbatim>\<open>random.choice\<close> has been called.\<close>

record world =
  events :: "event list"
  draws :: nat

definition emit :: "event \<Rightarrow> world \<Rightarrow> world" where
  "emit e w = w\<lparr>events := events w @ [e]\<rparr>"

definition log :: "level \<Rightarrow> string \<Rightarrow> logarg list \<Rightarrow> world \<Rightarrow> world" where
  "log lv m args w = emit (Log lv m args) w"

definition sleep :: "nat \<Rightarrow> world \<Rightarrow> world" where
  "sleep n w = emit (Sleep n) w"

text \<open>An exception ends a sequence of steps: the state is threaded through, and the first
  exception is the result.\<close>

definition and_then ::
  "('e + 'a) \<times> world \<Rightarrow> ('a \<Rightarrow> world \<Rightarrow> ('e + 'b) \<times> world) \<Rightarrow> ('e + 'b) \<times> world" where
  "and_then m f = (case m of (Inl e, w) \<Rightarrow> (Inl e, w) | (Inr x, w) \<Rightarrow> f x w)"

text \<open>A feed entry as the program reads it: what \<^verbatim>\<open>entry.get\<close> returns for the four
  keys it asks for. \<open>'st\<close> is \<^verbatim>\<open>time.struct_time\<close>.\<close>

record 'st entry =
  title :: "pystr option"
  link :: "pystr option"
  published_parsed :: "'st option"
  updated_parsed :: "'st option"

record 'st feed_data =
  bozo :: bool
  bozo_exception :: pystr
  entries :: "'st entry list"

text \<open>
  The environment: the outside world and the library functions the program calls, all
  taken as parameters.
  \<^item> \<open>rng k\<close>: the index \<^verbatim>\<open>random.choice\<close> draws at its \<open>k\<close>-th call;
  \<^item> \<open>utcnow\<close>: \<^verbatim>\<open>datetime.now(timezone.utc)\<close>, in microseconds since the epoch;
  \<^item> \<open>http\<close>: the reply to a request, which may depend on everything that happened
    before: a transport failure or a response;
  \<^item> \<open>feedparser_parse\<close>: the parsed feed for a URL and an agent string;
  \<^item> \<open>mktime\<close>: \<^verbatim>\<open>time.mktime\<close>, seconds since the epoch of a \<^verbatim>\<open>struct_time\<close> read
    in the machine's local time zone, or the exception it raises;
  \<^item> \<open>unicode_upper\<close>: \<^verbatim>\<open>str.upper\<close> outside ASCII;
  \<^item> \<open>BeautifulSoup\<close>, \<open>soup_find\<close>, \<open>get_text\<close>, \<open>tag_name\<close>: the HTML parser,
    \<^verbatim>\<open>soup.find(name, id=...)\<close>, \<^verbatim>\<open>tag.get_text(separator="\n", strip=True)\<close> and
    \<^verbatim>\<open>tag.name\<close>.
\<close>

record ('st, 'soup, 'tag) env =
  rng :: "nat \<Rightarrow> nat"
  utcnow :: int
  http :: "event list \<Rightarrow> request \<Rightarrow> request_error + response"
  feedparser_parse :: "event list \<Rightarrow> pystr \<Rightarrow> pystr \<Rightarrow> 'st feed_data"
  mktime :: "'st \<Rightarrow> py_exn + int"
  unicode_upper :: "pystr \<Rightarrow> pystr"
  BeautifulSoup :: "bytes \<Rightarrow> py_exn + 'soup"
  soup_find :: "'soup \<Rightarrow> pystr \<Rightarrow> pystr option \<Rightarrow> py_exn + 'tag option"
  get_text :: "'tag \<Rightarrow> py_exn + pystr"
  tag_name :: "'tag \<Rightarrow> pystr"

section \<open>Helper functions\<close>

definition get_random_user_agent :: "('st, 'soup, 'tag) env \<Rightarrow> world \<Rightarrow> pystr \<times> world" where
  "get_random_user_agent env w =
     (USER_AGENTS ! (rng env (draws w) mod length USER_AGENTS), w\<lparr>draws := Suc (draws w)\<rparr>)"

text \<open>
  The body of the \<^verbatim>\<open>try\<close> of \<open>make_request\<close> once the verb is known: the call, then
  \<^verbatim>\<open>raise_for_status\<close>; both failures are \<^verbatim>\<open>RequestException\<close>s, caught and logged.
\<close>

definition send_request ::
  "('st, 'soup, 'tag) env \<Rightarrow> request \<Rightarrow> world \<Rightarrow> response option \<times> world" where
  "send_request env req w =
     (let w1 = emit (Request req) w in
      case http env (events w) req of
        Inl e \<Rightarrow>
          (None, log ERROR ''Request failed for {url}. Error: {e}''
                   [AStr (url req), AExn (RequestError e)] w1)
      | Inr r \<Rightarrow>
          (case raise_for_status r of
             Inl e \<Rightarrow>
               (None, log ERROR ''Request failed for {url}. Error: {e}''
                        [AStr (url req), AExn e] w1)
           | Inr u \<Rightarrow> (Some r, w1)))"

definition make_request ::
  "('st, 'soup, 'tag) env \<Rightarrow> pystr \<Rightarrow> pystr \<Rightarrow> (pystr \<times> pystr) list \<Rightarrow> req_body \<Rightarrow> world
     \<Rightarrow> response option \<times> world" where
  "make_request env url' method headers' kwargs w =
     (case (if map_of headers' (lit ''User-Agent'') = None
            then (case get_random_user_agent env w of
                    (ua, w') \<Rightarrow> (headers' @ [(lit ''User-Agent'', ua)], w'))
            else (headers', w)) of
        (hs, w1) \<Rightarrow>
          if upper (unicode_upper env) method = lit ''GET'' then
            send_request env
              \<lparr>verb = GET, url = url', headers = hs, timeout = 120, body = kwargs\<rparr> w1
          else if upper (unicode_upper env) method = lit ''POST'' then
            send_request env
              \<lparr>verb = POST, url = url', headers = hs, timeout = 120, body = kwargs\<rparr> w1
          else (None, log ERROR ''Unsupported HTTP method: {method}'' [AStr method] w1))"

section \<open>Delivery\<close>

text \<open>\<^verbatim>\<open>x.get(key)\<close> on a decoded JSON value: only a dict has the method.\<close>

fun py_get :: "jsonval \<Rightarrow> pystr \<Rightarrow> py_exn + jsonval" where
  "py_get (JDict kvs) k = Inr (case map_of kvs k of None \<Rightarrow> JNull | Some v \<Rightarrow> v)"
| "py_get v k = Inl AttributeError"

text \<open>
  \<open>send_telegram_message\<close> has no \<^verbatim>\<open>try\<close>: an exception of \<^verbatim>\<open>response.json()\<close> or
  of \<^verbatim>\<open>.get\<close> leaves the function, which the result \<open>Inl\<close> records.
\<close>

definition send_telegram_message ::
  "('st, 'soup, 'tag) env \<Rightarrow> config \<Rightarrow> pystr \<Rightarrow> world \<Rightarrow> (py_exn + bool) \<times> world" where
  "send_telegram_message env cfg text_message w =
     (if BOT_TOKEN cfg = [] \<or> CHAT_ID cfg = [] then
        (Inr False, log ERROR ''Telegram Bot Token or Chat ID not configured.'' [] w)
      else
        case make_request env (TELEGRAM_SEND_MESSAGE_URL cfg) (lit ''POST'') []
               (Data_form [(lit ''chat_id'', CHAT_ID cfg), (lit ''text'', text_message),
                           (lit ''parse_mode'', lit ''Markdown'')])
               (log INFO ''Sending text message to Telegram...'' [] w) of
          (None, w2) \<Rightarrow>
            (Inr False,
             log ERROR ''Failed to send text message to Telegram. Response: {response.text if response else 'No response'}''
               [AStr (lit ''No response'')] w2)
        | (Some r, w2) \<Rightarrow>
            if \<not> response_bool r then
              (Inr False,
               log ERROR ''Failed to send text message to Telegram. Response: {response.text if response else 'No response'}''
                 [AStr (lit ''No response'')] w2)
            else
              (case json r of
                 Inl e \<Rightarrow> (Inl e, w2)
               | Inr v \<Rightarrow>
                   (case py_get v (lit ''ok'') of
                      Inl e \<Rightarrow> (Inl e, w2)
                    | Inr ok \<Rightarrow>
                        if truthy ok then
                          (Inr True, log INFO ''Text message sent successfully to Telegram.'' [] w2)
                        else
                          (Inr False,
                           log ERROR ''Failed to send text message to Telegram. Response: {response.text if response else 'No response'}''
                             [AResponseText r] w2))))"

text \<open>
  \<open>send_telegram_audio\<close> posts the upload itself, with no headers of its own and a
  60 second timeout. \<open>send_telegram_audio_try\<close> is the body of its \<^verbatim>\<open>try\<close>; the
  \<^verbatim>\<open>except\<close> clause catches a \<^verbatim>\<open>RequestException\<close> and nothing else.
\<close>

definition send_telegram_audio_try ::
  "('st, 'soup, 'tag) env \<Rightarrow> config \<Rightarrow> bytes \<Rightarrow> pystr \<Rightarrow> world \<Rightarrow> (py_exn + bool) \<times> world" where
  "send_telegram_audio_try env cfg audio_bytes caption w =
     (let req = \<lparr>verb = POST, url = TELEGRAM_SEND_AUDIO_URL cfg, headers = [], timeout = 60,
                 body = Multipart
                   [(lit ''audio'', lit ''daily_news_summary.mp3'', audio_bytes, lit ''audio/mpeg'')]
                   [(lit ''chat_id'', CHAT_ID cfg), (lit ''caption'', take 1024 caption)]\<rparr>;
          w1 = emit (Request req) w
      in case http env (events w) req of
           Inl e \<Rightarrow> (Inl (RequestError e), w1)
         | Inr r \<Rightarrow>
             (case raise_for_status r of
                Inl e \<Rightarrow> (Inl e, w1)
              | Inr u \<Rightarrow>
                  (case json r of
                     Inl e \<Rightarrow> (Inl e, w1)
                   | Inr v \<Rightarrow>
                       (case py_get v (lit ''ok'') of
                          Inl e \<Rightarrow> (Inl e, w1)
                        | Inr ok \<Rightarrow>
                            if truthy ok then
                              (Inr True, log INFO ''Audio sent successfully to Telegram.'' [] w1)
                            else
                              (Inr False,
                               log ERROR ''Failed to send audio to Telegram. Response: {response.text}''
                                 [AResponseText r] w1)))))"

definition send_telegram_audio ::
  "('st, 'soup, 'tag) env \<Rightarrow> config \<Rightarrow> bytes \<Rightarrow> pystr \<Rightarrow> world \<Rightarrow> (py_exn + bool) \<times> world" where
  "send_telegram_audio env cfg audio_bytes caption w =
     (if BOT_TOKEN cfg = [] \<or> CHAT_ID cfg = [] then
        (Inr False, log ERROR ''Telegram Bot Token or Chat ID not configured.'' [] w)
      else
        case send_telegram_audio_try env cfg audio_bytes caption
               (log INFO ''Sending audio to Telegram...'' [] w) of
          (Inl e, w1) \<Rightarrow>
            if is_RequestException e then
              (Inr False, log ERROR ''Telegram audio send request failed: {e}'' [AExn e] w1)
            else (Inl e, w1)
        | (Inr sent, w1) \<Rightarrow> (Inr sent, w1))"

section \<open>Speech synthesis\<close>

definition text_to_speech_elevenlabs ::
  "('st, 'soup, 'tag) env \<Rightarrow> config \<Rightarrow> pystr \<Rightarrow> world \<Rightarrow> bytes option \<times> world" where
  "text_to_speech_elevenlabs env cfg text' w =
     (if ELEVENLABS_API_KEY cfg = [] \<or> ELEVENLABS_VOICE_ID cfg = [] then
        (None, log ERROR ''ElevenLabs API key or Voice ID not configured.'' [] w)
      else if strip text' = [] then
        (None, log WARNING ''Empty text provided for text-to-speech.'' [] w)
      else
        case make_request env (ELEVENLABS_API_URL cfg) (lit ''POST'')
               [(lit ''Accept'', lit ''audio/mpeg''),
                (lit ''Content-Type'', lit ''application/json''),
                (lit ''xi-api-key'', ELEVENLABS_API_KEY cfg)]
               (Json_kw (JDict
                  [(lit ''text'', JStr text'),
                   (lit ''model_id'', JStr (lit ''eleven_multilingual_v2'')),
                   (lit ''voice_settings'',
                    JDict [(lit ''stability'', JFloat (1 / 2)),
                           (lit ''similarity_boost'', JFloat (3 / 4))])]))
               (log INFO ''Sending text to ElevenLabs for speech synthesis...'' [] w) of
          (None, w2) \<Rightarrow> (None, log ERROR ''Failed to get response from ElevenLabs API.'' [] w2)
        | (Some r, w2) \<Rightarrow>
            if \<not> response_bool r then
              (None, log ERROR ''Failed to get response from ElevenLabs API.'' [] w2)
            else if status_code r = 200 \<and> content r \<noteq> [] then
              (Some (content r), log INFO ''MP3 audio received from ElevenLabs.'' [] w2)
            else
              (None,
               log ERROR ''ElevenLabs API error. Status: {response.status_code}, Response: {response.text}''
                 [AInt (status_code r), AResponseText r] w2))"

section \<open>Feed fetcher\<close>

text \<open>
  \<^verbatim>\<open>datetime.fromtimestamp(s, timezone.utc)\<close> for a whole number of seconds, as
  microseconds since the epoch. A \<^verbatim>\<open>datetime\<close> has a year from 1 to 9999; outside
  that range the call raises.
\<close>

definition fromtimestamp_utc :: "int \<Rightarrow> py_exn + int" where
  "fromtimestamp_utc s =
     (if - 62135596800 \<le> s \<and> s \<le> 253402300799 then Inr (s * 1000000) else Inl ValueError)"

text \<open>\<^verbatim>\<open>timedelta(days=1)\<close> in microseconds.\<close>

definition one_day :: int where
  "one_day = 86400000000"

text \<open>\<^verbatim>\<open>entry.get("published_parsed") or entry.get("updated_parsed")\<close>: a
  \<^verbatim>\<open>struct_time\<close> is a non-empty tuple, so it is true whenever it is there.\<close>

definition entry_time :: "'st entry \<Rightarrow> 'st option" where
  "entry_time e = (case published_parsed e of Some t \<Rightarrow> Some t | None \<Rightarrow> updated_parsed e)"

text \<open>\<^verbatim>\<open>entry.get('title', default)\<close>.\<close>

definition title_or :: "'st entry \<Rightarrow> pystr \<Rightarrow> pystr" where
  "title_or e fallback = (case title e of None \<Rightarrow> fallback | Some t \<Rightarrow> t)"

text \<open>The loop of lines 120 to 131 over the entries, \<open>recent_entries\<close> as accumulator.
  An exception of \<^verbatim>\<open>time.mktime\<close> or \<^verbatim>\<open>datetime.fromtimestamp\<close> is not caught.\<close>

fun filter_recent ::
  "('st, 'soup, 'tag) env \<Rightarrow> int \<Rightarrow> 'st entry list \<Rightarrow> 'st entry list \<Rightarrow> world
     \<Rightarrow> (py_exn + 'st entry list) \<times> world" where
  "filter_recent env twenty_four_hours_ago [] recent_entries w = (Inr recent_entries, w)"
| "filter_recent env twenty_four_hours_ago (e # es) recent_entries w =
     (case entry_time e of
        None \<Rightarrow>
          filter_recent env twenty_four_hours_ago es recent_entries
            (log WARNING ''Entry '{entry.get('title', 'No Title')}' has no parsable date. Skipping.''
               [AStr (title_or e (lit ''No Title''))] w)
      | Some published_time_struct \<Rightarrow>
          (case mktime env published_time_struct of
             Inl x \<Rightarrow> (Inl x, w)
           | Inr secs \<Rightarrow>
               (case fromtimestamp_utc secs of
                  Inl x \<Rightarrow> (Inl x, w)
                | Inr entry_date \<Rightarrow>
                    if entry_date \<ge> twenty_four_hours_ago then
                      filter_recent env twenty_four_hours_ago es (recent_entries @ [e])
                        (log INFO ''Found recent entry: '{entry.get('title', 'No Title')}' published at {entry_date}''
                           [AStr (title_or e (lit ''No Title'')), AInt entry_date] w)
                    else filter_recent env twenty_four_hours_ago es recent_entries w)))"

definition fetch_rss_entries ::
  "('st, 'soup, 'tag) env \<Rightarrow> pystr \<Rightarrow> world \<Rightarrow> (py_exn + 'st entry list) \<times> world" where
  "fetch_rss_entries env rss_url w =
     (case get_random_user_agent env
             (log INFO ''Fetching RSS feed from: {rss_url}'' [AStr rss_url] w) of
        (agent, w1) \<Rightarrow>
          (let feed_data = feedparser_parse env (events w1) rss_url agent;
               w2 = emit (Feedparser_parse rss_url agent) w1;
               w3 = (if bozo feed_data then
                       log WARNING ''RSS feed may be malformed. Bozo reason: {feed_data.bozo_exception}''
                         [AStr (bozo_exception feed_data)] w2
                     else w2)
           in if entries feed_data = [] then
                (Inr [], log INFO ''No entries found in the RSS feed.'' [] w3)
              else
                and_then (filter_recent env (utcnow env - one_day) (entries feed_data) [] w3)
                  (\<lambda>recent_entries w4.
                     (Inr recent_entries,
                      log INFO ''Found {len(recent_entries)} recent entries from the last 24 hours.''
                        [ANat (length recent_entries)] w4))))"

section \<open>Article extractor\<close>

text \<open>An exception ends a sequence of library calls.\<close>

definition or_raise :: "'e + 'a \<Rightarrow> ('a \<Rightarrow> 'e + 'b) \<Rightarrow> 'e + 'b" where
  "or_raise m f = (case m of Inl e \<Rightarrow> Inl e | Inr x \<Rightarrow> f x)"

text \<open>\<^verbatim>\<open>soup.find("main") or soup.find("article") or soup.find("body")\<close>: a tag is
  always true, so the first one found is the value.\<close>

definition find_main_content :: "('st, 'soup, 'tag) env \<Rightarrow> 'soup \<Rightarrow> py_exn + 'tag option" where
  "find_main_content env soup =
     or_raise (soup_find env soup (lit ''main'') None)
       (\<lambda>m. case m of
              Some t \<Rightarrow> Inr (Some t)
            | None \<Rightarrow>
                or_raise (soup_find env soup (lit ''article'') None)
                  (\<lambda>a. case a of
                         Some t \<Rightarrow> Inr (Some t)
                       | None \<Rightarrow> soup_find env soup (lit ''body'') None))"

text \<open>The body of the \<^verbatim>\<open>try\<close> of \<open>extract_text_from_url\<close>, lines 145 to 163.\<close>

definition extract_text_try ::
  "('st, 'soup, 'tag) env \<Rightarrow> pystr \<Rightarrow> response \<Rightarrow> world \<Rightarrow> (py_exn + pystr option) \<times> world" where
  "extract_text_try env article_url r w =
     (case BeautifulSoup env (content r) of
        Inl x \<Rightarrow> (Inl x, w)
      | Inr soup \<Rightarrow>
          (case soup_find env soup (lit ''section'') (Some (lit ''entry-body'')) of
             Inl x \<Rightarrow> (Inl x, w)
           | Inr (Some entry_body) \<Rightarrow>
               (case get_text env entry_body of
                  Inl x \<Rightarrow> (Inl x, w)
                | Inr t \<Rightarrow>
                    (Inr (Some t),
                     log INFO ''Successfully extracted text from {article_url} (length: {len(text)})''
                       [AStr article_url, ANat (length t)] w))
           | Inr None \<Rightarrow>
               (case find_main_content env soup of
                  Inl x \<Rightarrow>
                    (Inl x,
                     log WARNING ''Could not find <section id='entry-body'> in {article_url}''
                       [AStr article_url] w)
                | Inr None \<Rightarrow>
                    (Inr None,
                     log WARNING ''No suitable content found in {article_url} using fallback.''
                       [AStr article_url]
                       (log WARNING ''Could not find <section id='entry-body'> in {article_url}''
                          [AStr article_url] w))
                | Inr (Some main_content) \<Rightarrow>
                    (case get_text env main_content of
                       Inl x \<Rightarrow>
                         (Inl x,
                          log WARNING ''Could not find <section id='entry-body'> in {article_url}''
                            [AStr article_url] w)
                     | Inr t \<Rightarrow>
                         if length t > 200 then
                           (Inr (Some t),
                            log INFO ''Fallback: Extracted text from {main_content.name} in {article_url} (length: {len(text)})''
                              [AStr (tag_name env main_content), AStr article_url, ANat (length t)]
                              (log WARNING ''Could not find <section id='entry-body'> in {article_url}''
                                 [AStr article_url] w))
                         else
                           (Inr None,
                            log WARNING ''No suitable content found in {article_url} using fallback.''
                              [AStr article_url]
                              (log WARNING ''Could not find <section id='entry-body'> in {article_url}''
                                 [AStr article_url] w))))))"

definition extract_text_from_url ::
  "('st, 'soup, 'tag) env \<Rightarrow> pystr \<Rightarrow> world \<Rightarrow> pystr option \<times> world" where
  "extract_text_from_url env article_url w =
     (case make_request env article_url (lit ''GET'') [] NoBody
             (log INFO ''Extracting text from: {article_url}'' [AStr article_url] w) of
        (None, w1) \<Rightarrow> (None, w1)
      | (Some r, w1) \<Rightarrow>
          if \<not> response_bool r then (None, w1)
          else
            (case extract_text_try env article_url r w1 of
               (Inl x, w2) \<Rightarrow>
                 (None,
                  log ERROR ''Error parsing HTML from {article_url}: {e}''
                    [AStr article_url, AExn x] w2)
             | (Inr t, w2) \<Rightarrow> (t, w2)))"

section \<open>Narrative generator\<close>

definition SYSTEM_PROMPT :: pystr where
  "SYSTEM_PROMPT =
     lit ''You are a news summarizer with a left-wing perspective.\<newline>'' @
     lit ''Your goal is to create a concise and engaging narrative of '' @ [34] @
     lit ''what's happened in the last 24 hours'' @ [34] @
     lit '' based on the provided article texts.\<newline>'' @
     lit ''Focus particularly on news related to:\<newline>'' @
     lit ''- LGBT issues and rights\<newline>'' @
     lit ''- Social justice movements and inequalities\<newline>'' @
     lit ''- Developments in Artificial Intelligence (AI), including ethics and societal impact\<newline>'' @
     lit ''- Computer security, cybersecurity threats, and data privacy\<newline>'' @
     lit ''Present the information as a coherent news update, not just a list of summaries.\<newline>'' @
     lit ''Highlight key events and their potential implications from your stated perspective.\<newline>'' @
     lit ''Ensure the tone is informative yet critical where appropriate, aligning with a progressive viewpoint.\<newline>'' @
     lit ''If there are no relevant articles for these specific topics, summarize the most important general news from the provided texts with this perspective in mind.\<newline>'' @
     lit ''If no text is provided, state that no news could be processed.\<newline>''"

text \<open>The dict of lines 179 to 192, before \<^verbatim>\<open>json.dumps\<close>; \<open>user_content\<close> is
  \<^verbatim>\<open>text_corpus or "No articles were found or text could not be extracted."\<close>.\<close>

definition llm_payload :: "pystr \<Rightarrow> jsonval" where
  "llm_payload user_content =
     JDict
       [(lit ''messages'',
         JList [JDict [(lit ''role'', JStr (lit ''system'')), (lit ''content'', JStr SYSTEM_PROMPT)],
                JDict [(lit ''role'', JStr (lit ''user'')), (lit ''content'', JStr user_content)]]),
        (lit ''model'', JStr (lit ''deepseek-chat'')),
        (lit ''frequency_penalty'', JInt 0),
        (lit ''max_tokens'', JInt 2048),
        (lit ''presence_penalty'', JInt 0),
        (lit ''response_format'', JDict [(lit ''type'', JStr (lit ''text''))]),
        (lit ''stream'', JBool False),
        (lit ''temperature'', JFloat (7 / 10)),
        (lit ''logprobs'', JBool False)]"

text \<open>
  Python's operations on a decoded JSON value, with the exceptions they raise:
  \<^verbatim>\<open>key in x\<close>, \<^verbatim>\<open>x[key]\<close> for a string key, \<^verbatim>\<open>x[0]\<close> and \<^verbatim>\<open>len(x)\<close>.
\<close>

fun starts_with :: "'a list \<Rightarrow> 'a list \<Rightarrow> bool" where
  "starts_with [] ys = True"
| "starts_with (x # xs) [] = False"
| "starts_with (x # xs) (y # ys) = (x = y \<and> starts_with xs ys)"

fun is_substring :: "'a list \<Rightarrow> 'a list \<Rightarrow> bool" where
  "is_substring xs [] = (xs = [])"
| "is_substring xs (y # ys) = (starts_with xs (y # ys) \<or> is_substring xs ys)"

fun py_contains :: "pystr \<Rightarrow> jsonval \<Rightarrow> py_exn + bool" where
  "py_contains k (JDict kvs) = Inr (map_of kvs k \<noteq> None)"
| "py_contains k (JList xs) = Inr (JStr k \<in> set xs)"
| "py_contains k (JStr s) = Inr (is_substring k s)"
| "py_contains k v = Inl TypeError"

fun py_getitem :: "jsonval \<Rightarrow> pystr \<Rightarrow> py_exn + jsonval" where
  "py_getitem (JDict kvs) k = (case map_of kvs k of None \<Rightarrow> Inl KeyError | Some v \<Rightarrow> Inr v)"
| "py_getitem v k = Inl TypeError"

fun py_getitem_0 :: "jsonval \<Rightarrow> py_exn + jsonval" where
  "py_getitem_0 (JList []) = Inl IndexError"
| "py_getitem_0 (JList (x # xs)) = Inr x"
| "py_getitem_0 (JStr []) = Inl IndexError"
| "py_getitem_0 (JStr (c # cs)) = Inr (JStr [c])"
| "py_getitem_0 (JDict kvs) = Inl KeyError"
| "py_getitem_0 v = Inl TypeError"

fun py_len :: "jsonval \<Rightarrow> py_exn + nat" where
  "py_len (JStr s) = Inr (length s)"
| "py_len (JList xs) = Inr (length xs)"
| "py_len (JDict kvs) = Inr (length kvs)"
| "py_len v = Inl TypeError"

text \<open>The body of the \<^verbatim>\<open>try\<close> of \<open>get_llm_narrative\<close>, lines 203 to 210.\<close>

definition narrative_try :: "response \<Rightarrow> world \<Rightarrow> (py_exn + jsonval option) \<times> world" where
  "narrative_try r w =
     (case json r of
        Inl x \<Rightarrow> (Inl x, w)
      | Inr response_data \<Rightarrow>
          (case or_raise (py_contains (lit ''choices'') response_data)
                  (\<lambda>has. if has then
                            or_raise (py_getitem response_data (lit ''choices''))
                              (\<lambda>choices. Inr (if truthy choices then Some choices else None))
                          else Inr None) of
             Inl x \<Rightarrow> (Inl x, w)
           | Inr None \<Rightarrow>
               (Inr None,
                log ERROR ''DeepSeek API response error or empty: {response_data}''
                  [AJson response_data] w)
           | Inr (Some choices) \<Rightarrow>
               (case or_raise (py_getitem_0 choices)
                       (\<lambda>choice. or_raise (py_getitem choice (lit ''message''))
                          (\<lambda>message. or_raise (py_getitem message (lit ''content''))
                             (\<lambda>narrative. or_raise (py_len narrative)
                                (\<lambda>n. Inr (narrative, n))))) of
                  Inl x \<Rightarrow> (Inl x, w)
                | Inr (narrative, n) \<Rightarrow>
                    (Inr (Some narrative),
                     log INFO ''Narrative received from DeepSeek (length: {len(narrative)})''
                       [ANat n] w))))"

definition get_llm_narrative ::
  "('st, 'soup, 'tag) env \<Rightarrow> config \<Rightarrow> pystr \<Rightarrow> world \<Rightarrow> jsonval option \<times> world" where
  "get_llm_narrative env cfg text_corpus w =
     (if DS_API_KEY cfg = [] then
        (None, log ERROR ''DeepSeek API key not configured.'' [] w)
      else
        case make_request env DS_API_URL (lit ''POST'')
               [(lit ''Content-Type'', lit ''application/json''),
                (lit ''Authorization'', lit ''Bearer '' @ DS_API_KEY cfg)]
               (Data_dumps
                  (llm_payload
                     (if text_corpus = []
                      then lit ''No articles were found or text could not be extracted.''
                      else text_corpus)))
               (log INFO ''Sending text to DeepSeek for narrative generation...'' []
                  (if strip text_corpus = [] then
                     log INFO ''Text corpus is empty. LLM will be prompted accordingly.'' [] w
                   else w)) of
          (None, w1) \<Rightarrow> (None, log ERROR ''Failed to get response from DeepSeek API.'' [] w1)
        | (Some r, w1) \<Rightarrow>
            if \<not> response_bool r then
              (None, log ERROR ''Failed to get response from DeepSeek API.'' [] w1)
            else
              (case narrative_try r w1 of
                 (Inl x, w2) \<Rightarrow>
                   if is_JSONDecodeError x then
                     (None,
                      log ERROR ''DeepSeek raw response: {response.text}'' [AResponseText r]
                        (log ERROR ''Failed to decode JSON response from DeepSeek: {e}''
                           [AExn x] w2))
                   else
                     (None,
                      log ERROR ''An unexpected error occurred with DeepSeek response processing: {e}''
                        [AExn x] w2)
               | (Inr narrative, w2) \<Rightarrow> (narrative, w2)))"

section \<open>The orchestrator\<close>

text \<open>Lines 346 to 348 of \<open>main\<close>: the first line of the narrative, cut after 200
  characters.\<close>

definition audio_caption_summary :: "pystr \<Rightarrow> pystr" where
  "audio_caption_summary narrative =
     (let first = takeWhile (\<lambda>c. c \<noteq> 10) narrative
      in if length first > 200 then take 200 first @ lit ''...'' else first)"

definition max_len :: nat where
  "max_len = 4000"

text \<open>\<^verbatim>\<open>range(0, stop, step)\<close> for a positive step.\<close>

definition range_step :: "nat \<Rightarrow> nat \<Rightarrow> nat list" where
  "range_step stop step = map (\<lambda>k. k * step) [0 ..< (stop + step - 1) div step]"

text \<open>The loop of lines 367 to 370 over the offsets \<open>i\<close>.\<close>

fun send_parts ::
  "('st, 'soup, 'tag) env \<Rightarrow> config \<Rightarrow> pystr \<Rightarrow> nat list \<Rightarrow> world \<Rightarrow> (py_exn + unit) \<times> world" where
  "send_parts env cfg narrative [] w = (Inr (), w)"
| "send_parts env cfg narrative (i # offsets) w =
     and_then
       (send_telegram_message env cfg
          (lit ''[Part '' @ str_nat (i div max_len + 1) @ lit '']\<newline>'' @
           take max_len (drop i narrative)) w)
       (\<lambda>sent w1. send_parts env cfg narrative offsets (sleep 1 w1))"

text \<open>Lines 361 to 373 of \<open>main\<close>: the narrative as text.\<close>

definition send_text_narrative ::
  "('st, 'soup, 'tag) env \<Rightarrow> config \<Rightarrow> pystr \<Rightarrow> world \<Rightarrow> (py_exn + unit) \<times> world" where
  "send_text_narrative env cfg narrative w =
     and_then
       (if length narrative > max_len then
          send_parts env cfg narrative (range_step (length narrative) max_len)
            (log INFO ''Sending text narrative to Telegram as fallback.'' [] w)
        else
          and_then
            (send_telegram_message env cfg narrative
               (log INFO ''Sending text narrative to Telegram as fallback.'' [] w))
            (\<lambda>sent w1. (Inr (), w1)))
       (\<lambda>u w1. (Inr (), log INFO ''Text narrative sent to Telegram.'' [] w1))"

text \<open>Lines 350 to 359 of \<open>main\<close>: synthesis and the audio attempt; the result is
  \<open>audio_sent\<close>.\<close>

definition send_audio_summary ::
  "('st, 'soup, 'tag) env \<Rightarrow> config \<Rightarrow> pystr \<Rightarrow> world \<Rightarrow> (py_exn + bool) \<times> world" where
  "send_audio_summary env cfg narrative w =
     (case text_to_speech_elevenlabs env cfg narrative w of
        (None, w1) \<Rightarrow>
          (Inr False,
           log WARNING ''Failed to generate audio from ElevenLabs. Will send text version.'' [] w1)
      | (Some audio_data, w1) \<Rightarrow>
          if audio_data = [] then
            (Inr False,
             log WARNING ''Failed to generate audio from ElevenLabs. Will send text version.'' [] w1)
          else
            and_then
              (send_telegram_audio env cfg audio_data
                 (lit ''Your 24hr News Summary:\<newline>'' @ audio_caption_summary narrative) w1)
              (\<lambda>sent w2.
                 if sent then (Inr True, log INFO ''Audio summary sent to Telegram.'' [] w2)
                 else
                   (Inr False,
                    log WARNING ''Failed to send audio summary to Telegram. Will attempt to send text version.'' [] w2)))"

text \<open>Lines 344 to 375 of \<open>main\<close>: what it does once it has a narrative.\<close>

definition deliver_narrative ::
  "('st, 'soup, 'tag) env \<Rightarrow> config \<Rightarrow> pystr \<Rightarrow> world \<Rightarrow> (py_exn + unit) \<times> world" where
  "deliver_narrative env cfg narrative w =
     and_then
       (send_audio_summary env cfg narrative (log INFO ''Narrative generated successfully.'' [] w))
       (\<lambda>audio_sent w1.
          and_then
            (if \<not> audio_sent then send_text_narrative env cfg narrative w1 else (Inr (), w1))
            (\<lambda>u w2. (Inr (), log INFO ''News aggregation process finished.'' [] w2)))"

text \<open>The loop of lines 318 to 326 of \<open>main\<close> over the recent entries,
  \<open>all_extracted_text\<close> as accumulator.\<close>

fun extract_all ::
  "('st, 'soup, 'tag) env \<Rightarrow> 'st entry list \<Rightarrow> pystr list \<Rightarrow> world \<Rightarrow> pystr list \<times> world" where
  "extract_all env [] all_extracted_text w = (all_extracted_text, w)"
| "extract_all env (e # es) all_extracted_text w =
     (case (case link e of None \<Rightarrow> None | Some l \<Rightarrow> if l = [] then None else Some l) of
        None \<Rightarrow>
          extract_all env es all_extracted_text
            (log WARNING ''Entry '{entry.get('title', 'No Title')}' has no link. Skipping.''
               [AStr (title_or e (lit ''No Title''))] w)
      | Some l \<Rightarrow>
          (case extract_text_from_url env l w of
             (None, w1) \<Rightarrow> extract_all env es all_extracted_text w1
           | (Some t, w1) \<Rightarrow>
               if t = [] then extract_all env es all_extracted_text w1
               else
                 extract_all env es
                   (all_extracted_text @
                    [lit ''--- Article: '' @ title_or e (lit ''Untitled Article'') @
                     lit '' ---\<newline>'' @ t @ lit ''\<newline>\<newline>''])
                   w1))"

text \<open>
  \<open>main\<close>. Its result is \<open>Inr ()\<close> when it returns and \<open>Inl e\<close> when the exception
  \<open>e\<close> leaves it. The narrative is whatever the provider put in the content field: when
  it is true but not a string, \<^verbatim>\<open>narrative.split\<close> raises.
\<close>

definition main ::
  "('st, 'soup, 'tag) env \<Rightarrow> config \<Rightarrow> pystr \<Rightarrow> world \<Rightarrow> (py_exn + unit) \<times> world" where
  "main env cfg rss_url w =
     (if BOT_TOKEN cfg = [] \<or> CHAT_ID cfg = [] \<or> DS_API_KEY cfg = [] \<or>
         ELEVENLABS_API_KEY cfg = [] \<or> ELEVENLABS_VOICE_ID cfg = [] then
        (Inr (),
         emit (Print_stderr ''ERROR: Critical API keys/IDs missing. Check .env file and logs.'')
           (log CRITICAL ''One or more critical API keys/IDs are missing in .env. Exiting.'' [] w))
      else
        and_then
          (fetch_rss_entries env rss_url (log INFO ''Starting news aggregation process...'' [] w))
          (\<lambda>recent_entries w1.
             if recent_entries = [] then
               and_then
                 (send_telegram_message env cfg
                    (lit ''No new articles found in the RSS feed in the last 24 hours.'')
                    (log INFO ''No recent articles found in the RSS feed. Nothing to process.'' [] w1))
                 (\<lambda>sent w2. (Inr (), w2))
             else
               case extract_all env recent_entries [] w1 of
                 (all_extracted_text, w2) \<Rightarrow>
                   if all_extracted_text = [] then
                     and_then
                       (send_telegram_message env cfg
                          (lit ''Found recent articles, but could not extract text content.'')
                          (log INFO ''No text could be extracted from recent articles.'' [] w2))
                       (\<lambda>sent w3. (Inr (), w3))
                   else
                     case get_llm_narrative env cfg (concat all_extracted_text)
                            (log INFO ''Total length of extracted text corpus: {len(full_text_corpus)}''
                               [ANat (length (concat all_extracted_text))] w2) of
                       (narrative, w3) \<Rightarrow>
                         if \<not> (case narrative of None \<Rightarrow> False | Some v \<Rightarrow> truthy v) then
                           and_then
                             (send_telegram_message env cfg
                                (lit ''Failed to generate an AI news summary. No update could be produced.'')
                                (log ERROR ''Failed to generate narrative from LLM. Sending raw text (if short) or error.'' [] w3))
                             (\<lambda>sent w4. (Inr (), w4))
                         else
                           (case narrative of
                              Some (JStr s) \<Rightarrow> deliver_narrative env cfg s w3
                            | other \<Rightarrow>
                                (Inl AttributeError,
                                 log INFO ''Narrative generated successfully.'' [] w3))))"

section \<open>What reaches the chat\<close>

text \<open>
  The actions of a trace that the chat can observe: a text posted to the
  \<^verbatim>\<open>sendMessage\<close> endpoint, an audio file with its caption posted to
  \<^verbatim>\<open>sendAudio\<close>, and the pauses between them.
\<close>

datatype action = Send_text pystr | Send_audio bytes pystr | Pause nat

fun observe_body :: "req_body \<Rightarrow> bool \<Rightarrow> bool \<Rightarrow> action option" where
  "observe_body (Data_form form) to_message to_audio =
     (if to_message then map_option Send_text (map_of form (lit ''text'')) else None)"
| "observe_body (Multipart [(fld, filename, audio, mime)] form) to_message to_audio =
     (if to_audio then map_option (Send_audio audio) (map_of form (lit ''caption'')) else None)"
| "observe_body b to_message to_audio = None"

fun observe :: "config \<Rightarrow> event \<Rightarrow> action option" where
  "observe cfg (Request r) =
     (if verb r = POST then
        observe_body (body r) (url r = TELEGRAM_SEND_MESSAGE_URL cfg)
          (url r = TELEGRAM_SEND_AUDIO_URL cfg)
      else None)"
| "observe cfg (Sleep n) = Some (Pause n)"
| "observe cfg e = None"

definition actions :: "config \<Rightarrow> event list \<Rightarrow> action list" where
  "actions cfg evs = List.map_filter (observe cfg) evs"

section \<open>Example inputs\<close>

text \<open>A configuration with every credential set, the state at the start of a run, an
  acknowledging reply of the messaging API, and an environment that gives the same reply
  to every request.\<close>

definition example_config :: config where
  "example_config =
     \<lparr>BOT_TOKEN = lit ''T'', CHAT_ID = lit ''C'', DS_API_KEY = lit ''K'',
      ELEVENLABS_API_KEY = lit ''E'', ELEVENLABS_VOICE_ID = lit ''V''\<rparr>"

definition initial_world :: world where
  "initial_world = \<lparr>events = [], draws = 0\<rparr>"

definition ok_response :: response where
  "ok_response =
     \<lparr>status_code = 200, content = ''ID3'', json = Inr (JDict [(lit ''ok'', JBool True)])\<rparr>"

definition const_env :: "request_error + response \<Rightarrow> (int, unit, unit) env" where
  "const_env reply =
     \<lparr>rng = (\<lambda>k. 0), utcnow = 0, http = (\<lambda>tr req. reply),
      feedparser_parse = (\<lambda>tr u a. \<lparr>bozo = False, bozo_exception = [], entries = []\<rparr>),
      mktime = Inr, unicode_upper = (\<lambda>s. s), BeautifulSoup = (\<lambda>b. Inr ()),
      soup_find = (\<lambda>s n i. Inr None), get_text = (\<lambda>t. Inr []), tag_name = (\<lambda>t. [])\<rparr>"

definition html_response :: response where
  "html_response = \<lparr>status_code = 200, content = ''<html>'', json = Inl JSONDecodeError\<rparr>"

definition multiple_choices_response :: response where
  "multiple_choices_response = \<lparr>status_code = 300, content = [], json = Inl JSONDecodeError\<rparr>"

text \<open>An environment as \<open>const_env\<close>, with a clock and a feed. Its \<^verbatim>\<open>struct_time\<close>
  values are integers, each standing for the seconds since the epoch that
  \<^verbatim>\<open>time.mktime\<close> gives for it.\<close>

definition feed_env ::
  "int \<Rightarrow> int entry list \<Rightarrow> request_error + response \<Rightarrow> (int, unit, unit) env" where
  "feed_env now es reply =
     (const_env reply)
       \<lparr>utcnow := now,
        feedparser_parse := (\<lambda>tr u a. \<lparr>bozo = False, bozo_exception = [], entries = es\<rparr>)\<rparr>"

definition entry_at :: "int \<Rightarrow> int entry" where
  "entry_at secs =
     \<lparr>title = Some (lit ''Headline''), link = Some (lit ''http://example.org/a''),
      published_parsed = Some secs, updated_parsed = None\<rparr>"

text \<open>
  An environment for article pages. A parsed page is a list of elements (name, id, visible
  text) in document order; every request gets the same response; \<open>soup_find\<close> gives the
  first element with the name and, when one is asked for, the id.
\<close>

definition page_env ::
  "(pystr \<times> pystr option \<times> pystr) list \<Rightarrow> response
     \<Rightarrow> (int, (pystr \<times> pystr option \<times> pystr) list, pystr \<times> pystr) env" where
  "page_env page reply =
     \<lparr>rng = (\<lambda>k. 0), utcnow = 0, http = (\<lambda>tr req. Inr reply),
      feedparser_parse = (\<lambda>tr u a. \<lparr>bozo = False, bozo_exception = [], entries = []\<rparr>),
      mktime = Inr, unicode_upper = (\<lambda>s. s), BeautifulSoup = (\<lambda>b. Inr page),
      soup_find = (\<lambda>soup name ident.
         Inr (map_option (\<lambda>(n, i, t). (n, t))
                (List.find (\<lambda>(n, i, t). n = name \<and> (ident = None \<or> i = ident)) soup))),
      get_text = (\<lambda>t. Inr (snd t)), tag_name = fst\<rparr>"

text \<open>The requests of a trace, in order.\<close>

fun request_of :: "event \<Rightarrow> request option" where
  "request_of (Request r) = Some r"
| "request_of e = None"

definition requests :: "event list \<Rightarrow> request list" where
  "requests evs = List.map_filter request_of evs"

section \<open>Two runs\<close>

text \<open>
  A request without its \<^verbatim>\<open>User-Agent\<close> header, and an event without the client
  identity it carries.
\<close>

definition without_agent :: "request \<Rightarrow> request" where
  "without_agent r = r\<lparr>headers := filter (\<lambda>h. fst h \<noteq> lit ''User-Agent'') (headers r)\<rparr>"

fun anonymous :: "event \<Rightarrow> event" where
  "anonymous (Request r) = Request (without_agent r)"
| "anonymous (Feedparser_parse u a) = Feedparser_parse u []"
| "anonymous e = e"

text \<open>
  An unchanged outside world: the reply to a request depends on nothing but the request,
  its \<^verbatim>\<open>User-Agent\<close> header apart, and the parsed feed on nothing but the URL.
\<close>

definition unchanged_world :: "('st, 'soup, 'tag) env \<Rightarrow> bool" where
  "unchanged_world env \<longleftrightarrow>
     (\<forall>tr tr' req req'. without_agent req = without_agent req' \<longrightarrow>
        http env tr req = http env tr' req') \<and>
     (\<forall>tr tr' u a a'. feedparser_parse env tr u a = feedparser_parse env tr' u a')"

text \<open>
  Two states are alike since the traces \<open>p1\<close> and \<open>p2\<close> when what each has added to
  its trace is the same, client identities apart. Two computations agree when, from
  states that are alike, they give the same result and states that are alike.
\<close>

definition same_since :: "event list \<Rightarrow> event list \<Rightarrow> world \<Rightarrow> world \<Rightarrow> bool" where
  "same_since p1 p2 w1 w2 \<longleftrightarrow>
     (\<exists>n1 n2. events w1 = p1 @ n1 \<and> events w2 = p2 @ n2 \<and>
        map anonymous n1 = map anonymous n2)"

definition agree ::
  "event list \<Rightarrow> event list \<Rightarrow> (world \<Rightarrow> 'a \<times> world) \<Rightarrow> (world \<Rightarrow> 'a \<times> world) \<Rightarrow> bool" where
  "agree p1 p2 f1 f2 \<longleftrightarrow>
     (\<forall>w1 w2. same_since p1 p2 w1 w2 \<longrightarrow>
        fst (f1 w1) = fst (f2 w2) \<and> same_since p1 p2 (snd (f1 w1)) (snd (f2 w2)))"

section \<open>Properties\<close>

subsection \<open>Basic facts\<close>

lemma lit_Nil: "lit [] = []" by (simp add: lit_def)
lemma lit_Cons: "lit (c # cs) = of_char c # lit cs" by (simp add: lit_def)
lemma length_lit: "length (lit s) = length s" by (simp add: lit_def)

lemma upper_POST: "upper f (lit ''POST'') = lit ''POST''"
  by (simp add: upper_def lit_def ascii_upper_def)
lemma upper_GET: "upper f (lit ''GET'') = lit ''GET''"
  by (simp add: upper_def lit_def ascii_upper_def)
lemma POST_neq_GET: "lit ''POST'' \<noteq> lit ''GET''"
  by (simp add: lit_def)

lemma events_emit: "events (emit e w) = events w @ [e]" by (simp add: emit_def)
lemma draws_emit: "draws (emit e w) = draws w" by (simp add: emit_def)
lemma events_log: "events (log lv m a w) = events w @ [Log lv m a]" by (simp add: log_def emit_def)
lemma draws_log: "draws (log lv m a w) = draws w" by (simp add: log_def emit_def)
lemma draws_sleep: "draws (sleep n w) = draws w" by (simp add: sleep_def emit_def)

lemma and_then_Inl: "and_then (Inl e, w) f = (Inl e, w)" by (simp add: and_then_def)
lemma and_then_Inr: "and_then (Inr x, w) f = f x w" by (simp add: and_then_def)

lemma actions_Nil: "actions cfg [] = []" by (simp add: actions_def map_filter_def)
lemma actions_append: "actions cfg (xs @ ys) = actions cfg xs @ actions cfg ys"
  by (simp add: actions_def map_filter_def)
lemma actions_Cons: "actions cfg (e # es) = (case observe cfg e of None \<Rightarrow> [] | Some a \<Rightarrow> [a]) @ actions cfg es"
  by (simp add: actions_def map_filter_def split: option.splits)
lemma actions_log: "actions cfg (events (log lv m a w)) = actions cfg (events w)"
  by (simp add: events_log actions_append actions_Cons actions_Nil)

lemma actions_send_request:
  "actions cfg (events (snd (send_request env req w))) = actions cfg (events w) @ actions cfg [Request req]"
  by (simp add: send_request_def Let_def events_emit actions_log actions_append split: sum.splits)

lemma events_get_random_user_agent: "events (snd (get_random_user_agent env w)) = events w"
  by (simp add: get_random_user_agent_def)

lemma actions_make_request_POST:
  "actions cfg (events (snd (make_request env u (lit ''POST'') hs kw w))) =
     actions cfg (events w) @
       (case observe_body kw (u = TELEGRAM_SEND_MESSAGE_URL cfg) (u = TELEGRAM_SEND_AUDIO_URL cfg) of
          None \<Rightarrow> [] | Some a \<Rightarrow> [a])"
  by (simp add: make_request_def upper_POST POST_neq_GET actions_send_request
      get_random_user_agent_def actions_Cons actions_Nil split: prod.splits)

lemma actions_send_telegram_message:
  assumes "BOT_TOKEN cfg \<noteq> []" "CHAT_ID cfg \<noteq> []"
  shows "actions cfg (events (snd (send_telegram_message env cfg m w))) =
           actions cfg (events w) @ [Send_text m]"
proof -
  let ?mr = "make_request env (TELEGRAM_SEND_MESSAGE_URL cfg) (lit ''POST'') []
               (Data_form [(lit ''chat_id'', CHAT_ID cfg), (lit ''text'', m),
                           (lit ''parse_mode'', lit ''Markdown'')])
               (log INFO ''Sending text message to Telegram...'' [] w)"
  have a: "actions cfg (events (snd ?mr)) = actions cfg (events w) @ [Send_text m]"
    by (subst actions_make_request_POST) (simp add: actions_log lit_def)
  obtain r w2 where mr: "?mr = (r, w2)" by (cases ?mr)
  with a have a2: "actions cfg (events w2) = actions cfg (events w) @ [Send_text m]" by simp
  show ?thesis using assms
    by (simp add: send_telegram_message_def mr a2 actions_log split: option.splits sum.splits)
qed






lemma send_request_reply:
  "http env (events w) req = Inr r \<Longrightarrow> raise_for_status r = Inr () \<Longrightarrow>
   fst (send_request env req w) = Some r"
  by (simp add: send_request_def Let_def)

lemma make_request_POST_reply:
  assumes "\<And>tr req. http env tr req = Inr r" "raise_for_status r = Inr ()"
  shows "fst (make_request env u (lit ''POST'') hs kw w) = Some r"
  using assms
  by (simp add: make_request_def upper_POST POST_neq_GET send_request_reply split: prod.splits)






lemma actions_text_to_speech:
  "actions cfg (events (snd (text_to_speech_elevenlabs env cfg t w))) = actions cfg (events w)"
proof -
  let ?mr = "make_request env (ELEVENLABS_API_URL cfg) (lit ''POST'')
               [(lit ''Accept'', lit ''audio/mpeg''),
                (lit ''Content-Type'', lit ''application/json''),
                (lit ''xi-api-key'', ELEVENLABS_API_KEY cfg)]
               (Json_kw (JDict
                  [(lit ''text'', JStr t),
                   (lit ''model_id'', JStr (lit ''eleven_multilingual_v2'')),
                   (lit ''voice_settings'',
                    JDict [(lit ''stability'', JFloat (1 / 2)),
                           (lit ''similarity_boost'', JFloat (3 / 4))])]))
               (log INFO ''Sending text to ElevenLabs for speech synthesis...'' [] w)"
  have a: "actions cfg (events (snd ?mr)) = actions cfg (events w)"
    by (subst actions_make_request_POST) (simp add: actions_log)
  obtain r w2 where mr: "?mr = (r, w2)" by (cases ?mr)
  with a have "actions cfg (events w2) = actions cfg (events w)" by simp
  then show ?thesis
    by (simp add: text_to_speech_elevenlabs_def mr actions_log split: option.splits)
qed

lemma text_to_speech_nonempty:
  "fst (text_to_speech_elevenlabs env cfg t w) = Some a \<Longrightarrow> a \<noteq> []"
  by (auto simp: text_to_speech_elevenlabs_def split: if_splits prod.splits option.splits)

lemma actions_send_telegram_audio_try:
  "actions cfg (events (snd (send_telegram_audio_try env cfg a cap w))) =
     actions cfg (events w) @ [Send_audio a (take 1024 cap)]"
  by (simp add: send_telegram_audio_try_def Let_def events_emit actions_append actions_Cons
      actions_Nil actions_log lit_def split: sum.splits)

lemma actions_send_telegram_audio:
  assumes "BOT_TOKEN cfg \<noteq> []" "CHAT_ID cfg \<noteq> []"
  shows "actions cfg (events (snd (send_telegram_audio env cfg a cap w))) =
           actions cfg (events w) @ [Send_audio a (take 1024 cap)]"
proof -
  let ?t = "send_telegram_audio_try env cfg a cap (log INFO ''Sending audio to Telegram...'' [] w)"
  have "actions cfg (events (snd ?t)) = actions cfg (events w) @ [Send_audio a (take 1024 cap)]"
    by (simp add: actions_send_telegram_audio_try actions_log)
  moreover obtain r w1 where "?t = (r, w1)" by (cases ?t)
  ultimately show ?thesis using assms
    by (simp add: send_telegram_audio_def actions_log split: sum.splits)
qed

lemma length_audio_caption_summary: "length (audio_caption_summary narrative) \<le> 203"
  by (simp add: audio_caption_summary_def Let_def lit_def)

lemma take_1024_caption:
  "take 1024 (lit ''Your 24hr News Summary:\<newline>'' @ audio_caption_summary narrative) =
     lit ''Your 24hr News Summary:\<newline>'' @ audio_caption_summary narrative"
proof -
  have "length (lit ''Your 24hr News Summary:\<newline>'' @ audio_caption_summary narrative) \<le> 1024"
    using length_audio_caption_summary [of narrative] by (simp add: length_lit)
  then show ?thesis by (rule take_all)
qed


lemma send_audio_summary_audio:
  assumes "BOT_TOKEN cfg \<noteq> []" "CHAT_ID cfg \<noteq> []"
    and "fst (text_to_speech_elevenlabs env cfg narrative w) = Some audio"
  shows "fst (send_audio_summary env cfg narrative w) =
           fst (send_telegram_audio env cfg audio
                  (lit ''Your 24hr News Summary:\<newline>'' @ audio_caption_summary narrative)
                  (snd (text_to_speech_elevenlabs env cfg narrative w))) \<and>
         actions cfg (events (snd (send_audio_summary env cfg narrative w))) =
           actions cfg (events w) @
           [Send_audio audio
              (lit ''Your 24hr News Summary:\<newline>'' @ audio_caption_summary narrative)]"
proof -
  let ?cap = "lit ''Your 24hr News Summary:\<newline>'' @ audio_caption_summary narrative"
  obtain w1 where tts: "text_to_speech_elevenlabs env cfg narrative w = (Some audio, w1)"
    using assms(3) by (cases "text_to_speech_elevenlabs env cfg narrative w") simp
  have ne: "audio \<noteq> []" using assms(3) by (rule text_to_speech_nonempty)
  have w1: "actions cfg (events w1) = actions cfg (events w)"
    using actions_text_to_speech [of cfg env narrative w] tts by simp
  obtain r w2 where sa: "send_telegram_audio env cfg audio ?cap w1 = (r, w2)"
    by (cases "send_telegram_audio env cfg audio ?cap w1")
  have w2: "actions cfg (events w2) = actions cfg (events w) @ [Send_audio audio ?cap]"
    using actions_send_telegram_audio [OF assms(1,2), of env audio ?cap w1, unfolded take_1024_caption]
      sa w1
    by simp
  show ?thesis
    by (cases r) (simp_all add: send_audio_summary_def tts ne sa w2 and_then_def actions_log)
qed

text \<open>
  C7, as the code has it. When synthesis gives audio bytes there is one audio post, and
  its caption is the fixed heading \<^verbatim>\<open>Your 24hr News Summary:\<close>, a newline, and the
  first line of the narrative, cut to 200 characters with \<^verbatim>\<open>...\<close> appended when it
  is longer. The posted caption field is the first 1024 characters of that string,
  which never has more than 227.
\<close>

theorem audio_caption:
  assumes "BOT_TOKEN cfg \<noteq> []" and "CHAT_ID cfg \<noteq> []"
    and "fst (text_to_speech_elevenlabs env cfg narrative w) = Some audio"
  shows "actions cfg (events (snd (send_audio_summary env cfg narrative w))) =
           actions cfg (events w) @
           [Send_audio audio
              (take 1024
                 (lit ''Your 24hr News Summary:\<newline>'' @
                  (if length (takeWhile (\<lambda>c. c \<noteq> 10) narrative) > 200
                   then take 200 (takeWhile (\<lambda>c. c \<noteq> 10) narrative) @ lit ''...''
                   else takeWhile (\<lambda>c. c \<noteq> 10) narrative)))] \<and>
         length (lit ''Your 24hr News Summary:\<newline>'' @
                  (if length (takeWhile (\<lambda>c. c \<noteq> 10) narrative) > 200
                   then take 200 (takeWhile (\<lambda>c. c \<noteq> 10) narrative) @ lit ''...''
                   else takeWhile (\<lambda>c. c \<noteq> 10) narrative)) \<le> 227"
proof -
  have eq: "(if length (takeWhile (\<lambda>c. c \<noteq> 10) narrative) > 200
             then take 200 (takeWhile (\<lambda>c. c \<noteq> 10) narrative) @ lit ''...''
             else takeWhile (\<lambda>c. c \<noteq> 10) narrative) = audio_caption_summary narrative"
    by (simp add: audio_caption_summary_def Let_def)
  have "length (lit ''Your 24hr News Summary:\<newline>'' @ audio_caption_summary narrative) \<le> 227"
    using length_audio_caption_summary [of narrative] by (simp add: length_lit)
  then show ?thesis
    unfolding eq using send_audio_summary_audio [OF assms]
    by (simp add: take_1024_caption)
qed

lemma make_request_const_ok:
  "fst (make_request (const_env (Inr ok_response)) u (lit ''POST'') hs kw w) = Some ok_response"
  by (rule make_request_POST_reply) (simp_all add: const_env_def raise_for_status_def ok_response_def)

lemma text_to_speech_const_ok:
  "fst (text_to_speech_elevenlabs (const_env (Inr ok_response)) example_config (lit ''Summary X'') w)
     = Some ''ID3''"
proof -
  let ?mr = "make_request (const_env (Inr ok_response)) (ELEVENLABS_API_URL example_config) (lit ''POST'')
               [(lit ''Accept'', lit ''audio/mpeg''),
                (lit ''Content-Type'', lit ''application/json''),
                (lit ''xi-api-key'', ELEVENLABS_API_KEY example_config)]
               (Json_kw (JDict
                  [(lit ''text'', JStr (lit ''Summary X'')),
                   (lit ''model_id'', JStr (lit ''eleven_multilingual_v2'')),
                   (lit ''voice_settings'',
                    JDict [(lit ''stability'', JFloat (1 / 2)),
                           (lit ''similarity_boost'', JFloat (3 / 4))])]))
               (log INFO ''Sending text to ElevenLabs for speech synthesis...'' [] w)"
  have "fst ?mr = Some ok_response" by (rule make_request_const_ok)
  then obtain w2 where mr: "?mr = (Some ok_response, w2)"
    by (cases ?mr) simp
  have s: "strip (lit ''Summary X'') \<noteq> []"
    by (simp add: strip_def lit_def isspace_def)
  have k: "ELEVENLABS_API_KEY example_config \<noteq> []" "ELEVENLABS_VOICE_ID example_config \<noteq> []"
    by (simp_all add: example_config_def lit_def)
  have r: "response_bool ok_response" "status_code ok_response = 200"
    "content ok_response = ''ID3''"
    by (simp_all add: response_bool_def raise_for_status_def ok_response_def)
  show ?thesis using s k
    by (simp add: text_to_speech_elevenlabs_def mr r)
qed

theorem audio_caption_witness:
  "fst (text_to_speech_elevenlabs (const_env (Inr ok_response)) example_config
          (lit ''Summary X'') initial_world) = Some ''ID3'' \<and>
   actions example_config
     (events (snd (send_audio_summary (const_env (Inr ok_response)) example_config
                     (lit ''Summary X'') initial_world))) =
     [Send_audio ''ID3'' (lit ''Your 24hr News Summary:\<newline>Summary X'')]"
proof -
  have c: "BOT_TOKEN example_config \<noteq> []" "CHAT_ID example_config \<noteq> []"
    by (simp_all add: example_config_def lit_def)
  show ?thesis
    using audio_caption [OF c text_to_speech_const_ok [of initial_world]]
      text_to_speech_const_ok [of initial_world]
    by (simp add: initial_world_def actions_Nil lit_def)
qed

text \<open>
  C7 as stated fails: for the narrative \<^verbatim>\<open>Summary X\<close> the caption of the audio post
  is not \<^verbatim>\<open>Summary X\<close> (nor a truncation of it) but carries the heading in front.
\<close>

theorem audio_caption_has_prefix:
  "actions example_config
     (events (snd (send_audio_summary (const_env (Inr ok_response)) example_config
                     (lit ''Summary X'') initial_world))) =
     [Send_audio ''ID3'' (lit ''Your 24hr News Summary:\<newline>Summary X'')] \<and>
   lit ''Your 24hr News Summary:\<newline>Summary X'' \<noteq> lit ''Summary X'' \<and>
   lit ''Your 24hr News Summary:\<newline>Summary X'' \<noteq> take 200 (lit ''Summary X'')"
proof -
  have c: "BOT_TOKEN example_config \<noteq> []" "CHAT_ID example_config \<noteq> []"
    by (simp_all add: example_config_def lit_def)
  have "actions example_config
     (events (snd (send_audio_summary (const_env (Inr ok_response)) example_config
                     (lit ''Summary X'') initial_world))) =
     [Send_audio ''ID3'' (lit ''Your 24hr News Summary:\<newline>'' @ audio_caption_summary (lit ''Summary X''))]"
    using send_audio_summary_audio [OF c text_to_speech_const_ok [of initial_world]]
    by (simp add: initial_world_def actions_Nil)
  moreover have "audio_caption_summary (lit ''Summary X'') = lit ''Summary X''"
    by (simp add: audio_caption_summary_def lit_def)
  ultimately show ?thesis by (simp add: lit_def)
qed

lemma length_USER_AGENTS: "length USER_AGENTS = 4"
  by (simp add: USER_AGENTS_def)

lemma make_request_GET_reply:
  assumes "\<And>tr req. http env tr req = Inr r" "raise_for_status r = Inr ()"
  shows "fst (make_request env u (lit ''GET'') hs kw w) = Some r"
  using assms
  by (simp add: make_request_def upper_GET send_request_reply split: prod.splits)

lemma make_request_POST_const:
  "raise_for_status r = Inr () \<Longrightarrow>
   fst (make_request (const_env (Inr r)) u (lit ''POST'') hs kw w) = Some r"
  by (rule make_request_POST_reply) (simp_all add: const_env_def)

text \<open>
  C8: the code at the failing input. The messaging API answers with status 200 and a
  body that is not JSON; \<open>send_telegram_message\<close> does not return \<open>False\<close>: the
  exception of \<^verbatim>\<open>response.json()\<close> leaves it.
\<close>

theorem send_telegram_message_raises:
  "fst (send_telegram_message (const_env (Inr html_response)) example_config (lit ''hello'')
          initial_world) = Inl JSONDecodeError"
proof -
  have rs: "raise_for_status html_response = Inr ()"
    by (simp add: raise_for_status_def html_response_def)
  let ?mr = "make_request (const_env (Inr html_response)) (TELEGRAM_SEND_MESSAGE_URL example_config)
               (lit ''POST'') []
               (Data_form [(lit ''chat_id'', CHAT_ID example_config), (lit ''text'', lit ''hello''),
                           (lit ''parse_mode'', lit ''Markdown'')])
               (log INFO ''Sending text message to Telegram...'' [] initial_world)"
  have "fst ?mr = Some html_response" by (rule make_request_POST_const [OF rs])
  then obtain w2 where mr: "?mr = (Some html_response, w2)" by (cases ?mr) simp
  have c: "BOT_TOKEN example_config \<noteq> []" "CHAT_ID example_config \<noteq> []"
    by (simp_all add: example_config_def lit_def)
  have r: "response_bool html_response" "json html_response = Inl JSONDecodeError"
    by (simp_all add: response_bool_def rs) (simp add: html_response_def)
  show ?thesis using c by (simp add: send_telegram_message_def mr r)
qed

text \<open>
  C5, as the code has it. \<open>make_request\<close> adds a randomly chosen \<^verbatim>\<open>User-Agent\<close>
  unless the caller gave one. When the upper-cased method is neither \<^verbatim>\<open>GET\<close> nor
  \<^verbatim>\<open>POST\<close> it returns \<open>None\<close>, logs an error and makes no request. Otherwise it
  makes one request with a 120 second timeout; a transport failure or a status from 400
  to 599 gives \<open>None\<close> and an error in the log; every other status gives the response.
\<close>

theorem make_request_outcomes:
  "(let hs = (if map_of headers' (lit ''User-Agent'') = None
              then headers' @ [(lit ''User-Agent'', USER_AGENTS ! (rng env (draws w) mod 4))]
              else headers');
        m = upper (unicode_upper env) method;
        req = \<lparr>verb = (if m = lit ''GET'' then GET else POST), url = u, headers = hs,
                 timeout = 120, body = kwargs\<rparr>;
        res = make_request env u method headers' kwargs w
    in if m \<noteq> lit ''GET'' \<and> m \<noteq> lit ''POST'' then
         fst res = None \<and>
         events (snd res) = events w @ [Log ERROR ''Unsupported HTTP method: {method}'' [AStr method]]
       else
         (case http env (events w) req of
            Inl e \<Rightarrow>
              fst res = None \<and>
              events (snd res) = events w @
                [Request req,
                 Log ERROR ''Request failed for {url}. Error: {e}'' [AStr u, AExn (RequestError e)]]
          | Inr r \<Rightarrow>
              if 400 \<le> status_code r \<and> status_code r < 600 then
                fst res = None \<and>
                events (snd res) = events w @
                  [Request req,
                   Log ERROR ''Request failed for {url}. Error: {e}''
                     [AStr u, AExn (HTTPError (status_code r))]]
              else fst res = Some r \<and> events (snd res) = events w @ [Request req]))"
proof -
  define hs where "hs = (if map_of headers' (lit ''User-Agent'') = None
              then headers' @ [(lit ''User-Agent'', USER_AGENTS ! (rng env (draws w) mod 4))]
              else headers')"
  define w1 where "w1 = (if map_of headers' (lit ''User-Agent'') = None
              then w\<lparr>draws := Suc (draws w)\<rparr> else w)"
  define m where "m = upper (unicode_upper env) method"
  define req where "req = \<lparr>verb = (if m = lit ''GET'' then GET else POST), url = u, headers = hs,
                 timeout = 120, body = kwargs\<rparr>"
  define res where "res = make_request env u method headers' kwargs w"
  have ev: "events w1 = events w" by (simp add: w1_def)
  have unf: "res = (if m = lit ''GET'' \<or> m = lit ''POST'' then send_request env req w1
                    else (None, log ERROR ''Unsupported HTTP method: {method}'' [AStr method] w1))"
    by (simp add: res_def make_request_def get_random_user_agent_def length_USER_AGENTS
        hs_def w1_def m_def req_def POST_neq_GET)
  have "if m \<noteq> lit ''GET'' \<and> m \<noteq> lit ''POST'' then
         fst res = None \<and>
         events (snd res) = events w @ [Log ERROR ''Unsupported HTTP method: {method}'' [AStr method]]
       else
         (case http env (events w) req of
            Inl e \<Rightarrow>
              fst res = None \<and>
              events (snd res) = events w @
                [Request req,
                 Log ERROR ''Request failed for {url}. Error: {e}'' [AStr u, AExn (RequestError e)]]
          | Inr r \<Rightarrow>
              if 400 \<le> status_code r \<and> status_code r < 600 then
                fst res = None \<and>
                events (snd res) = events w @
                  [Request req,
                   Log ERROR ''Request failed for {url}. Error: {e}''
                     [AStr u, AExn (HTTPError (status_code r))]]
              else fst res = Some r \<and> events (snd res) = events w @ [Request req])"
  proof (cases "m = lit ''GET'' \<or> m = lit ''POST''")
    case False
    then show ?thesis by (simp add: unf events_log ev)
  next
    case True
    have u: "url req = u" by (simp add: req_def)
    from True have "res = send_request env req w1" by (simp add: unf)
    with True show ?thesis
      by (auto simp: send_request_def Let_def ev u events_log events_emit raise_for_status_def
          split: sum.splits)
  qed
  then show ?thesis
    unfolding hs_def m_def req_def res_def Let_def .
qed

text \<open>
  C5 as stated fails: a response with a status that is not 2xx comes back as the result
  when the status is outside 400 to 599, here 300.
\<close>

theorem make_request_returns_non_2xx:
  "fst (make_request (const_env (Inr multiple_choices_response)) (lit ''http://example.org/a'')
          (lit ''GET'') [] NoBody initial_world) = Some multiple_choices_response \<and>
   \<not> (200 \<le> status_code multiple_choices_response \<and> status_code multiple_choices_response < 300)"
proof -
  have rs: "raise_for_status multiple_choices_response = Inr ()"
    by (simp add: raise_for_status_def multiple_choices_response_def)
  have "fst (make_request (const_env (Inr multiple_choices_response)) (lit ''http://example.org/a'')
          (lit ''GET'') [] NoBody initial_world) = Some multiple_choices_response"
    by (rule make_request_GET_reply [OF _ rs]) (simp add: const_env_def)
  then show ?thesis by (simp add: multiple_choices_response_def)
qed










lemma example_config_set:
  "BOT_TOKEN example_config \<noteq> []" "CHAT_ID example_config \<noteq> []"
  by (simp_all add: example_config_def lit_def)

lemma const_env_http: "http (const_env reply) tr req = reply"
  by (simp add: const_env_def)




lemma fst_and_then_Inr:
  "fst (and_then m (\<lambda>x w. (Inr x, g x w))) = fst m"
  by (cases m; cases "fst m") (auto simp: and_then_def)



lemma feed_env_simps:
  "utcnow (feed_env now es reply) = now"
  "feedparser_parse (feed_env now es reply) tr u a = \<lparr>bozo = False, bozo_exception = [], entries = es\<rparr>"
  "mktime (feed_env now es reply) = Inr"
  "http (feed_env now es reply) tr req = reply"
  by (simp_all add: feed_env_def const_env_def)

lemma entry_time_entry_at: "entry_time (entry_at s) = Some s"
  by (simp add: entry_time_def entry_at_def)




lemma send_request_Some:
  "fst (send_request env req w) = Some r \<Longrightarrow> response_bool r"
  by (auto simp: send_request_def Let_def response_bool_def split: sum.splits)

lemma make_request_Some:
  "fst (make_request env u m hs kw w) = Some r \<Longrightarrow> response_bool r"
  by (auto simp: make_request_def dest: send_request_Some split: if_splits prod.splits)

lemma fst_extract_text_try:
  "fst (extract_text_try env article_url r w) =
     (case BeautifulSoup env (content r) of
        Inl x \<Rightarrow> Inl x
      | Inr soup \<Rightarrow>
          (case soup_find env soup (lit ''section'') (Some (lit ''entry-body'')) of
             Inl x \<Rightarrow> Inl x
           | Inr (Some entry_body) \<Rightarrow>
               (case get_text env entry_body of Inl x \<Rightarrow> Inl x | Inr t \<Rightarrow> Inr (Some t))
           | Inr None \<Rightarrow>
               (case find_main_content env soup of
                  Inl x \<Rightarrow> Inl x
                | Inr None \<Rightarrow> Inr None
                | Inr (Some main_content) \<Rightarrow>
                    (case get_text env main_content of
                       Inl x \<Rightarrow> Inl x
                     | Inr t \<Rightarrow> Inr (if length t > 200 then Some t else None)))))"
proof (cases "BeautifulSoup env (content r)")
  case (Inl x)
  then show ?thesis by (simp add: extract_text_try_def)
next
  case soup: (Inr soup)
  show ?thesis
  proof (cases "soup_find env soup (lit ''section'') (Some (lit ''entry-body''))")
    case (Inl x)
    with soup show ?thesis by (simp add: extract_text_try_def)
  next
    case eb: (Inr eb)
    show ?thesis
    proof (cases eb)
      case (Some t)
      with soup eb show ?thesis
        by (cases "get_text env t") (simp_all add: extract_text_try_def)
    next
      case None
      show ?thesis
      proof (cases "find_main_content env soup")
        case (Inl x)
        with soup eb None show ?thesis by (simp add: extract_text_try_def)
      next
        case mc: (Inr mc)
        show ?thesis
        proof (cases mc)
          case None
          with soup eb \<open>eb = None\<close> mc show ?thesis by (simp add: extract_text_try_def)
        next
          case (Some t)
          with soup eb \<open>eb = None\<close> mc show ?thesis
            by (cases "get_text env t") (simp_all add: extract_text_try_def)
        qed
      qed
    qed
  qed
qed

lemma fst_extract_text_from_url:
  assumes "fst (make_request env article_url (lit ''GET'') [] NoBody
                  (log INFO ''Extracting text from: {article_url}'' [AStr article_url] w)) = Some r"
  shows "fst (extract_text_from_url env article_url w) =
           (case fst (extract_text_try env article_url r w') of Inl x \<Rightarrow> None | Inr t \<Rightarrow> t)"
proof -
  let ?mr = "make_request env article_url (lit ''GET'') [] NoBody
                  (log INFO ''Extracting text from: {article_url}'' [AStr article_url] w)"
  from assms obtain w1 where mr: "?mr = (Some r, w1)" by (cases ?mr) simp
  have ok: "response_bool r" using assms by (rule make_request_Some)
  have ind: "fst (extract_text_try env article_url r w1) = fst (extract_text_try env article_url r w')"
    by (simp add: fst_extract_text_try)
  obtain t w2 where et: "extract_text_try env article_url r w1 = (t, w2)"
    by (cases "extract_text_try env article_url r w1")
  with ind have "fst (extract_text_try env article_url r w') = t" by simp
  with et show ?thesis
    by (simp add: extract_text_from_url_def mr ok split: sum.splits)
qed

text \<open>
  C4. For a page that was fetched (the request helper returned the response \<open>r\<close>), the
  Article Extractor returns:
  \<^item> the text of the \<^verbatim>\<open>section\<close> element with id \<^verbatim>\<open>entry-body\<close> when there is one,
    whatever its length;
  \<^item> otherwise the text of the first of \<^verbatim>\<open>main\<close>, \<^verbatim>\<open>article\<close>, \<^verbatim>\<open>body\<close> that the
    page has, when that text has more than 200 characters;
  \<^item> \<open>None\<close> when the page has none of them, when the fallback text has 200 characters
    or fewer, and when the parser or any later call raises.
\<close>

theorem extract_text_outcomes:
  assumes "fst (make_request env article_url (lit ''GET'') [] NoBody
                  (log INFO ''Extracting text from: {article_url}'' [AStr article_url] w)) = Some r"
  shows
    "(let fallback = (\<lambda>main_content.
                        case get_text env main_content of
                          Inl x \<Rightarrow> None
                        | Inr t \<Rightarrow> if length t > 200 then Some t else None)
      in fst (extract_text_from_url env article_url w) =
           (case BeautifulSoup env (content r) of
              Inl x \<Rightarrow> None
            | Inr soup \<Rightarrow>
                (case soup_find env soup (lit ''section'') (Some (lit ''entry-body'')) of
                   Inl x \<Rightarrow> None
                 | Inr (Some entry_body) \<Rightarrow>
                     (case get_text env entry_body of Inl x \<Rightarrow> None | Inr t \<Rightarrow> Some t)
                 | Inr None \<Rightarrow>
                     (case soup_find env soup (lit ''main'') None of
                        Inl x \<Rightarrow> None
                      | Inr (Some m) \<Rightarrow> fallback m
                      | Inr None \<Rightarrow>
                          (case soup_find env soup (lit ''article'') None of
                             Inl x \<Rightarrow> None
                           | Inr (Some a) \<Rightarrow> fallback a
                           | Inr None \<Rightarrow>
                               (case soup_find env soup (lit ''body'') None of
                                  Inl x \<Rightarrow> None
                                | Inr (Some b) \<Rightarrow> fallback b
                                | Inr None \<Rightarrow> None))))))"
proof -
  define fallback where "fallback = (\<lambda>main_content.
                        case get_text env main_content of
                          Inl x \<Rightarrow> None
                        | Inr t \<Rightarrow> if length t > 200 then Some t else None)"
  have fb: "(case find_main_content env soup of
               Inl x \<Rightarrow> None
             | Inr None \<Rightarrow> None
             | Inr (Some mc) \<Rightarrow> fallback mc) =
            (case soup_find env soup (lit ''main'') None of
                        Inl x \<Rightarrow> None
                      | Inr (Some m) \<Rightarrow> fallback m
                      | Inr None \<Rightarrow>
                          (case soup_find env soup (lit ''article'') None of
                             Inl x \<Rightarrow> None
                           | Inr (Some a) \<Rightarrow> fallback a
                           | Inr None \<Rightarrow>
                               (case soup_find env soup (lit ''body'') None of
                                  Inl x \<Rightarrow> None
                                | Inr (Some b) \<Rightarrow> fallback b
                                | Inr None \<Rightarrow> None)))" for soup
  proof (cases "soup_find env soup (lit ''main'') None")
    case (Inl x)
    then show ?thesis by (simp add: find_main_content_def or_raise_def)
  next
    case m: (Inr mo)
    show ?thesis
    proof (cases mo)
      case (Some t)
      with m show ?thesis by (simp add: find_main_content_def or_raise_def)
    next
      case None
      show ?thesis
      proof (cases "soup_find env soup (lit ''article'') None")
        case (Inl x)
        with m None show ?thesis by (simp add: find_main_content_def or_raise_def)
      next
        case a: (Inr ao)
        show ?thesis
        proof (cases ao)
          case (Some t)
          with m \<open>mo = None\<close> a show ?thesis by (simp add: find_main_content_def or_raise_def)
        next
          case None
          with m \<open>mo = None\<close> a show ?thesis by (simp add: find_main_content_def or_raise_def)
        qed
      qed
    qed
  qed
  note u = fst_extract_text_from_url [OF assms, of w] fst_extract_text_try
  have res: "fst (extract_text_from_url env article_url w) =
           (case BeautifulSoup env (content r) of
              Inl x \<Rightarrow> None
            | Inr soup \<Rightarrow>
                (case soup_find env soup (lit ''section'') (Some (lit ''entry-body'')) of
                   Inl x \<Rightarrow> None
                 | Inr (Some entry_body) \<Rightarrow>
                     (case get_text env entry_body of Inl x \<Rightarrow> None | Inr t \<Rightarrow> Some t)
                 | Inr None \<Rightarrow>
                     (case find_main_content env soup of
                        Inl x \<Rightarrow> None
                      | Inr None \<Rightarrow> None
                      | Inr (Some mc) \<Rightarrow> fallback mc)))"
  proof (cases "BeautifulSoup env (content r)")
    case (Inl x)
    then show ?thesis by (simp add: u)
  next
    case soup: (Inr soup)
    show ?thesis
    proof (cases "soup_find env soup (lit ''section'') (Some (lit ''entry-body''))")
      case (Inl x)
      with soup show ?thesis by (simp add: u)
    next
      case eb: (Inr eb)
      show ?thesis
      proof (cases eb)
        case (Some t)
        with soup eb show ?thesis by (cases "get_text env t") (simp_all add: u fallback_def)
      next
        case None
        show ?thesis
        proof (cases "find_main_content env soup")
          case (Inl x)
          with soup eb None show ?thesis by (simp add: u)
        next
          case mc: (Inr mc)
          show ?thesis
          proof (cases mc)
            case None
            with soup eb \<open>eb = None\<close> mc show ?thesis by (simp add: u)
          next
            case (Some t)
            with soup eb \<open>eb = None\<close> mc show ?thesis
              by (cases "get_text env t") (simp_all add: u fallback_def)
          qed
        qed
      qed
    qed
  qed
  show ?thesis
    unfolding Let_def fallback_def [symmetric] res fb ..
qed

lemma page_env_simps:
  "http (page_env page reply) tr req = Inr reply"
  "BeautifulSoup (page_env page reply) b = Inr page"
  "soup_find (page_env page reply) soup name ident =
     Inr (map_option (\<lambda>(n, i, t). (n, t))
            (List.find (\<lambda>(n, i, t). n = name \<and> (ident = None \<or> i = ident)) soup))"
  "get_text (page_env page reply) t = Inr (snd t)"
  by (simp_all add: page_env_def)

theorem extract_text_outcomes_witness:
  "fst (make_request
          (page_env [(lit ''section'', Some (lit ''entry-body''), lit ''Short body'')] ok_response)
          (lit ''http://example.org/a'') (lit ''GET'') [] NoBody
          (log INFO ''Extracting text from: {article_url}'' [AStr (lit ''http://example.org/a'')]
             initial_world)) = Some ok_response \<and>
   fst (extract_text_from_url
          (page_env [(lit ''section'', Some (lit ''entry-body''), lit ''Short body'')] ok_response)
          (lit ''http://example.org/a'') initial_world) = Some (lit ''Short body'')"
proof -
  have rs: "raise_for_status ok_response = Inr ()"
    by (simp add: raise_for_status_def ok_response_def)
  have h: "fst (make_request
          (page_env [(lit ''section'', Some (lit ''entry-body''), lit ''Short body'')] ok_response)
          (lit ''http://example.org/a'') (lit ''GET'') [] NoBody
          (log INFO ''Extracting text from: {article_url}'' [AStr (lit ''http://example.org/a'')]
             initial_world)) = Some ok_response"
    by (rule make_request_GET_reply [OF page_env_simps(1) rs])
  from extract_text_outcomes [OF h]
  have "fst (extract_text_from_url
          (page_env [(lit ''section'', Some (lit ''entry-body''), lit ''Short body'')] ok_response)
          (lit ''http://example.org/a'') initial_world) = Some (lit ''Short body'')"
    by (simp add: Let_def page_env_simps)
  with h show ?thesis by (rule conjI)
qed

lemma requests_Nil: "requests [] = []" by (simp add: requests_def map_filter_def)
lemma requests_append: "requests (xs @ ys) = requests xs @ requests ys"
  by (simp add: requests_def map_filter_def)
lemma requests_Cons:
  "requests (e # es) = (case request_of e of None \<Rightarrow> [] | Some r \<Rightarrow> [r]) @ requests es"
  by (simp add: requests_def map_filter_def split: option.splits)
lemma requests_log: "requests (events (log lv m a w)) = requests (events w)"
  by (simp add: events_log requests_append requests_Cons requests_Nil)

lemma requests_send_request:
  "requests (events (snd (send_request env req w))) = requests (events w) @ [req]"
  by (simp add: send_request_def Let_def events_emit requests_log requests_append requests_Cons
      requests_Nil split: sum.splits)

lemma requests_make_request_POST:
  "map (\<lambda>r. (verb r, url r, body r)) (requests (events (snd (make_request env u (lit ''POST'') hs kw w)))) =
     map (\<lambda>r. (verb r, url r, body r)) (requests (events w)) @ [(POST, u, kw)]"
  by (simp add: make_request_def upper_POST POST_neq_GET requests_send_request
      get_random_user_agent_def split: prod.splits)

lemma choices_of_truthy:
  assumes "or_raise (py_contains (lit ''choices'') d)
                  (\<lambda>has. if has then
                            or_raise (py_getitem d (lit ''choices''))
                              (\<lambda>choices. Inr (if truthy choices then Some choices else None))
                          else Inr None) = Inr (Some choices)"
  shows "\<exists>kvs. d = JDict kvs \<and> map_of kvs (lit ''choices'') = Some choices \<and> truthy choices"
proof (cases d)
  case (JDict kvs)
  with assms show ?thesis
    by (cases "map_of kvs (lit ''choices'')") (simp_all add: or_raise_def split: if_splits)
qed (use assms in \<open>simp_all add: or_raise_def split: if_splits\<close>)

lemma first_choice:
  assumes "or_raise (py_getitem_0 choices)
                       (\<lambda>choice. or_raise (py_getitem choice (lit ''message''))
                          (\<lambda>message. or_raise (py_getitem message (lit ''content''))
                             (\<lambda>narrative. or_raise (py_len narrative)
                                (\<lambda>n. Inr (narrative, n))))) = Inr res"
  shows "(\<exists>c cs. choices = JList (c # cs)) \<or> (\<exists>c cs. choices = JStr (c # cs))"
proof (cases choices)
  case (JList xs)
  with assms show ?thesis by (cases xs) (simp_all add: or_raise_def)
next
  case (JStr s)
  with assms show ?thesis by (cases s) (simp_all add: or_raise_def)
qed (use assms in \<open>simp_all add: or_raise_def\<close>)

lemma first_choice_not_str:
  "or_raise (py_getitem_0 (JStr s))
                       (\<lambda>choice. or_raise (py_getitem choice (lit ''message''))
                          (\<lambda>message. or_raise (py_getitem message (lit ''content''))
                             (\<lambda>narrative. or_raise (py_len narrative)
                                (\<lambda>n. Inr (narrative, n))))) \<noteq> Inr res"
  by (cases s) (simp_all add: or_raise_def)

lemma narrative_try_Some:
  assumes "fst (narrative_try r w) = Inr (Some n)"
  shows "\<exists>kvs c cs. json r = Inr (JDict kvs) \<and> map_of kvs (lit ''choices'') = Some (JList (c # cs))"
proof (cases "json r")
  case (Inl x)
  with assms show ?thesis by (simp add: narrative_try_def)
next
  case d: (Inr d)
  let ?c = "or_raise (py_contains (lit ''choices'') d)
                  (\<lambda>has. if has then
                            or_raise (py_getitem d (lit ''choices''))
                              (\<lambda>choices. Inr (if truthy choices then Some choices else None))
                          else Inr None)"
  show ?thesis
  proof (cases ?c)
    case (Inl x)
    with assms d show ?thesis by (simp add: narrative_try_def)
  next
    case c: (Inr co)
    show ?thesis
    proof (cases co)
      case None
      with assms d c show ?thesis by (simp add: narrative_try_def)
    next
      case (Some choices)
      from choices_of_truthy [OF c [unfolded Some]]
      obtain kvs where kvs: "d = JDict kvs" "map_of kvs (lit ''choices'') = Some choices"
        by blast
      let ?f = "or_raise (py_getitem_0 choices)
                       (\<lambda>choice. or_raise (py_getitem choice (lit ''message''))
                          (\<lambda>message. or_raise (py_getitem message (lit ''content''))
                             (\<lambda>narrative. or_raise (py_len narrative)
                                (\<lambda>n. Inr (narrative, n)))))"
      from assms d c Some obtain res where f: "?f = Inr res"
        by (cases ?f) (simp_all add: narrative_try_def)
      from first_choice [OF f] first_choice_not_str f
      obtain c' cs where "choices = JList (c' # cs)" by blast
      with d kvs show ?thesis by simp
    qed
  qed
qed

text \<open>
  C6. With the summarizer's key set, the Narrative Generator given the empty corpus issues
  one request, a POST to the summarizer whose body is the payload with the placeholder
  sentence, which is not empty, as the user content. And whatever the corpus, when the
  response that came back has a body that does not decode, or decodes to something other
  than an object whose \<^verbatim>\<open>choices\<close> is a non-empty list, the result is \<open>None\<close>. The
  \<^verbatim>\<open>try\<close> catches every exception, so the result of \<open>get_llm_narrative\<close> has no
  exception case.
\<close>

theorem narrative_request_and_missing_choices:
  assumes "DS_API_KEY cfg \<noteq> []"
  shows
    "map (\<lambda>r. (verb r, url r, body r)) (requests (events (snd (get_llm_narrative env cfg [] w)))) =
       map (\<lambda>r. (verb r, url r, body r)) (requests (events w)) @
       [(POST, DS_API_URL,
         Data_dumps (llm_payload (lit ''No articles were found or text could not be extracted.'')))] \<and>
     py_getitem (llm_payload (lit ''No articles were found or text could not be extracted.''))
       (lit ''messages'') =
       Inr (JList [JDict [(lit ''role'', JStr (lit ''system'')), (lit ''content'', JStr SYSTEM_PROMPT)],
                   JDict [(lit ''role'', JStr (lit ''user'')),
                          (lit ''content'',
                           JStr (lit ''No articles were found or text could not be extracted.''))]]) \<and>
     lit ''No articles were found or text could not be extracted.'' \<noteq> [] \<and>
     (\<forall>text_corpus r.
        fst (make_request env DS_API_URL (lit ''POST'')
               [(lit ''Content-Type'', lit ''application/json''),
                (lit ''Authorization'', lit ''Bearer '' @ DS_API_KEY cfg)]
               (Data_dumps
                  (llm_payload
                     (if text_corpus = []
                      then lit ''No articles were found or text could not be extracted.''
                      else text_corpus)))
               (log INFO ''Sending text to DeepSeek for narrative generation...'' []
                  (if strip text_corpus = [] then
                     log INFO ''Text corpus is empty. LLM will be prompted accordingly.'' [] w
                   else w))) = Some r \<and>
        \<not> (\<exists>kvs c cs. json r = Inr (JDict kvs) \<and>
                        map_of kvs (lit ''choices'') = Some (JList (c # cs))) \<longrightarrow>
        fst (get_llm_narrative env cfg text_corpus w) = None)"
proof -
  have 1: "map (\<lambda>r. (verb r, url r, body r)) (requests (events (snd (get_llm_narrative env cfg [] w)))) =
       map (\<lambda>r. (verb r, url r, body r)) (requests (events w)) @
       [(POST, DS_API_URL,
         Data_dumps (llm_payload (lit ''No articles were found or text could not be extracted.'')))]"
  proof -
    let ?mr = "make_request env DS_API_URL (lit ''POST'')
               [(lit ''Content-Type'', lit ''application/json''),
                (lit ''Authorization'', lit ''Bearer '' @ DS_API_KEY cfg)]
               (Data_dumps
                  (llm_payload (lit ''No articles were found or text could not be extracted.'')))
               (log INFO ''Sending text to DeepSeek for narrative generation...'' []
                  (log INFO ''Text corpus is empty. LLM will be prompted accordingly.'' [] w))"
    have a: "map (\<lambda>r. (verb r, url r, body r)) (requests (events (snd ?mr))) =
       map (\<lambda>r. (verb r, url r, body r)) (requests (events w)) @
       [(POST, DS_API_URL,
         Data_dumps (llm_payload (lit ''No articles were found or text could not be extracted.'')))]"
      by (subst requests_make_request_POST) (simp add: requests_log)
    obtain ro w1 where mr: "?mr = (ro, w1)" by (cases ?mr)
    have nt: "requests (events (snd (narrative_try r w'))) = requests (events w')" for r w'
      by (simp add: narrative_try_def requests_log split: sum.splits option.splits prod.splits)
    have "requests (events (snd (get_llm_narrative env cfg [] w))) = requests (events w1)"
    proof (cases ro)
      case None
      with assms mr show ?thesis
        by (simp add: get_llm_narrative_def strip_def requests_log)
    next
      case (Some r)
      obtain t w2 where t: "narrative_try r w1 = (t, w2)" by (cases "narrative_try r w1")
      with nt [of r w1] have "requests (events w2) = requests (events w1)" by simp
      with assms mr Some t show ?thesis
        by (cases t) (simp_all add: get_llm_narrative_def strip_def requests_log)
    qed
    with a mr show ?thesis by simp
  qed
  have 2: "py_getitem (llm_payload (lit ''No articles were found or text could not be extracted.''))
       (lit ''messages'') =
       Inr (JList [JDict [(lit ''role'', JStr (lit ''system'')), (lit ''content'', JStr SYSTEM_PROMPT)],
                   JDict [(lit ''role'', JStr (lit ''user'')),
                          (lit ''content'',
                           JStr (lit ''No articles were found or text could not be extracted.''))]])"
    by (simp add: llm_payload_def)
  have 3: "lit ''No articles were found or text could not be extracted.'' \<noteq> []"
    by (simp add: lit_def)
  have 4: "fst (get_llm_narrative env cfg text_corpus w) = None"
    if mr: "fst (make_request env DS_API_URL (lit ''POST'')
               [(lit ''Content-Type'', lit ''application/json''),
                (lit ''Authorization'', lit ''Bearer '' @ DS_API_KEY cfg)]
               (Data_dumps
                  (llm_payload
                     (if text_corpus = []
                      then lit ''No articles were found or text could not be extracted.''
                      else text_corpus)))
               (log INFO ''Sending text to DeepSeek for narrative generation...'' []
                  (if strip text_corpus = [] then
                     log INFO ''Text corpus is empty. LLM will be prompted accordingly.'' [] w
                   else w))) = Some r"
      and lacks: "\<not> (\<exists>kvs c cs. json r = Inr (JDict kvs) \<and>
                        map_of kvs (lit ''choices'') = Some (JList (c # cs)))"
    for text_corpus r
  proof -
    let ?mr = "make_request env DS_API_URL (lit ''POST'')
               [(lit ''Content-Type'', lit ''application/json''),
                (lit ''Authorization'', lit ''Bearer '' @ DS_API_KEY cfg)]
               (Data_dumps
                  (llm_payload
                     (if text_corpus = []
                      then lit ''No articles were found or text could not be extracted.''
                      else text_corpus)))
               (log INFO ''Sending text to DeepSeek for narrative generation...'' []
                  (if strip text_corpus = [] then
                     log INFO ''Text corpus is empty. LLM will be prompted accordingly.'' [] w
                   else w))"
    from mr obtain w1 where m: "?mr = (Some r, w1)" by (cases ?mr) simp
    obtain t w2 where t: "narrative_try r w1 = (t, w2)" by (cases "narrative_try r w1")
    have "t \<noteq> Inr (Some n)" for n
      using narrative_try_Some [of r w1 n] lacks t by auto
    then have "(case t of Inl x \<Rightarrow> None | Inr v \<Rightarrow> v) = None"
      by (cases t) auto
    with assms m t show ?thesis
      by (cases t) (simp_all add: get_llm_narrative_def)
  qed
  from 1 2 3 4 show ?thesis by blast
qed

theorem narrative_request_and_missing_choices_witness:
  "DS_API_KEY example_config \<noteq> [] \<and>
   map (\<lambda>r. (verb r, url r, body r))
     (requests (events (snd (get_llm_narrative (const_env (Inr ok_response)) example_config []
                               initial_world)))) =
     [(POST, DS_API_URL,
       Data_dumps (llm_payload (lit ''No articles were found or text could not be extracted.'')))] \<and>
   fst (get_llm_narrative (const_env (Inr ok_response)) example_config [] initial_world) = None"
proof -
  have k: "DS_API_KEY example_config \<noteq> []" by (simp add: example_config_def lit_def)
  have rs: "raise_for_status ok_response = Inr ()"
    by (simp add: raise_for_status_def ok_response_def)
  have mr: "fst (make_request (const_env (Inr ok_response)) DS_API_URL (lit ''POST'')
               [(lit ''Content-Type'', lit ''application/json''),
                (lit ''Authorization'', lit ''Bearer '' @ DS_API_KEY example_config)]
               (Data_dumps
                  (llm_payload
                     (if ([]::pystr) = []
                      then lit ''No articles were found or text could not be extracted.''
                      else [])))
               (log INFO ''Sending text to DeepSeek for narrative generation...'' []
                  (if strip [] = [] then
                     log INFO ''Text corpus is empty. LLM will be prompted accordingly.'' []
                       initial_world
                   else initial_world))) = Some ok_response"
    by (rule make_request_POST_reply [OF const_env_http rs])
  have lacks: "\<not> (\<exists>kvs c cs. json ok_response = Inr (JDict kvs) \<and>
                        map_of kvs (lit ''choices'') = Some (JList (c # cs)))"
    by (simp add: ok_response_def lit_def)
  note t = narrative_request_and_missing_choices [OF k, of "const_env (Inr ok_response)" initial_world]
  from t have "fst (get_llm_narrative (const_env (Inr ok_response)) example_config [] initial_world) = None"
    using mr lacks by blast
  moreover from t have "map (\<lambda>r. (verb r, url r, body r))
     (requests (events (snd (get_llm_narrative (const_env (Inr ok_response)) example_config []
                               initial_world)))) =
     [(POST, DS_API_URL,
       Data_dumps (llm_payload (lit ''No articles were found or text could not be extracted.'')))]"
    by (simp add: initial_world_def requests_Nil)
  ultimately show ?thesis using k by simp
qed

subsection \<open>Two runs in an unchanged world\<close>

lemma same_since_start: "same_since (events w1) (events w2) w1 w2"
  by (simp add: same_since_def)

lemma same_since_emit:
  "same_since p1 p2 w1 w2 \<Longrightarrow> anonymous e1 = anonymous e2 \<Longrightarrow>
   same_since p1 p2 (emit e1 w1) (emit e2 w2)"
  by (auto simp: same_since_def events_emit)

lemma same_since_log:
  "same_since p1 p2 w1 w2 \<Longrightarrow> same_since p1 p2 (log lv m a w1) (log lv m a w2)"
  by (simp add: log_def same_since_emit)

lemma same_since_sleep:
  "same_since p1 p2 w1 w2 \<Longrightarrow> same_since p1 p2 (sleep n w1) (sleep n w2)"
  by (simp add: sleep_def same_since_emit)

lemma same_since_draws:
  "same_since p1 p2 w1 w2 \<Longrightarrow> same_since p1 p2 (w1\<lparr>draws := a\<rparr>) (w2\<lparr>draws := b\<rparr>)"
  by (simp add: same_since_def)

lemma observe_anonymous: "observe cfg (anonymous e) = observe cfg e"
  by (cases e) (simp_all add: without_agent_def)

lemma actions_anonymous: "actions cfg (map anonymous evs) = actions cfg evs"
  by (induction evs) (simp_all add: actions_Nil actions_Cons observe_anonymous)

lemma same_since_actions:
  assumes "same_since p1 p2 w1 w2"
  shows "\<exists>new. actions cfg (events w1) = actions cfg p1 @ new \<and>
               actions cfg (events w2) = actions cfg p2 @ new"
proof -
  from assms obtain n1 n2 where e: "events w1 = p1 @ n1" "events w2 = p2 @ n2"
    and m: "map anonymous n1 = map anonymous n2"
    by (auto simp: same_since_def)
  have "actions cfg n1 = actions cfg n2"
    using actions_anonymous [of cfg n1] actions_anonymous [of cfg n2] m by simp
  with e show ?thesis by (simp add: actions_append)
qed

lemma agreeI:
  assumes "\<And>w1 w2. same_since p1 p2 w1 w2 \<Longrightarrow>
             fst (f1 w1) = fst (f2 w2) \<and> same_since p1 p2 (snd (f1 w1)) (snd (f2 w2))"
  shows "agree p1 p2 f1 f2"
  using assms by (simp add: agree_def)

lemma agreeE:
  assumes "agree p1 p2 f1 f2" "same_since p1 p2 w1 w2"
  obtains x w1' w2' where "f1 w1 = (x, w1')" "f2 w2 = (x, w2')" "same_since p1 p2 w1' w2'"
proof -
  from assms have a: "fst (f1 w1) = fst (f2 w2)"
    and b: "same_since p1 p2 (snd (f1 w1)) (snd (f2 w2))"
    by (simp_all add: agree_def)
  have 1: "f1 w1 = (fst (f1 w1), snd (f1 w1))" by simp
  have 2: "f2 w2 = (fst (f1 w1), snd (f2 w2))" unfolding a by simp
  from 1 2 b show ?thesis by (rule that)
qed

lemma agree_send_request:
  assumes "unchanged_world env" "without_agent req1 = without_agent req2"
  shows "agree p1 p2 (send_request (env\<lparr>rng := r1\<rparr>) req1) (send_request (env\<lparr>rng := r2\<rparr>) req2)"
proof (rule agreeI)
  fix w1 w2
  assume R: "same_since p1 p2 w1 w2"
  from assms have h: "http env (events w1) req1 = http env (events w2) req2"
    by (simp add: unchanged_world_def)
  from assms(2) have u: "url req1 = url req2"
    by (cases req1, cases req2) (simp add: without_agent_def)
  have R1: "same_since p1 p2 (emit (Request req1) w1) (emit (Request req2) w2)"
    using R assms(2) by (simp add: same_since_emit)
  show "fst (send_request (env\<lparr>rng := r1\<rparr>) req1 w1) = fst (send_request (env\<lparr>rng := r2\<rparr>) req2 w2) \<and>
        same_since p1 p2 (snd (send_request (env\<lparr>rng := r1\<rparr>) req1 w1))
                         (snd (send_request (env\<lparr>rng := r2\<rparr>) req2 w2))"
    using h u R1
    by (simp add: send_request_def Let_def same_since_log split: sum.splits)
qed

lemma agree_make_request:
  assumes "unchanged_world env"
  shows "agree p1 p2 (make_request (env\<lparr>rng := r1\<rparr>) u m hs kw)
                     (make_request (env\<lparr>rng := r2\<rparr>) u m hs kw)"
proof (rule agreeI)
  fix w1 w2
  assume R: "same_since p1 p2 w1 w2"
  define hs1 where "hs1 = (if map_of hs (lit ''User-Agent'') = None
      then hs @ [(lit ''User-Agent'', USER_AGENTS ! (r1 (draws w1) mod length USER_AGENTS))] else hs)"
  define hs2 where "hs2 = (if map_of hs (lit ''User-Agent'') = None
      then hs @ [(lit ''User-Agent'', USER_AGENTS ! (r2 (draws w2) mod length USER_AGENTS))] else hs)"
  define v1 where "v1 = (if map_of hs (lit ''User-Agent'') = None then w1\<lparr>draws := Suc (draws w1)\<rparr> else w1)"
  define v2 where "v2 = (if map_of hs (lit ''User-Agent'') = None then w2\<lparr>draws := Suc (draws w2)\<rparr> else w2)"
  have Rv: "same_since p1 p2 v1 v2"
    using R by (simp add: v1_def v2_def same_since_draws)
  have f: "filter (\<lambda>h. fst h \<noteq> lit ''User-Agent'') hs1 = filter (\<lambda>h. fst h \<noteq> lit ''User-Agent'') hs2"
    by (simp add: hs1_def hs2_def)
  have wa: "without_agent \<lparr>verb = vb, url = u, headers = hs1, timeout = 120, body = kw\<rparr> =
            without_agent \<lparr>verb = vb, url = u, headers = hs2, timeout = 120, body = kw\<rparr>" for vb
    using f by (simp add: without_agent_def)
  have m1: "make_request (env\<lparr>rng := r1\<rparr>) u m hs kw w1 =
      (if upper (unicode_upper env) m = lit ''GET'' then
         send_request (env\<lparr>rng := r1\<rparr>) \<lparr>verb = GET, url = u, headers = hs1, timeout = 120, body = kw\<rparr> v1
       else if upper (unicode_upper env) m = lit ''POST'' then
         send_request (env\<lparr>rng := r1\<rparr>) \<lparr>verb = POST, url = u, headers = hs1, timeout = 120, body = kw\<rparr> v1
       else (None, log ERROR ''Unsupported HTTP method: {method}'' [AStr m] v1))"
    by (simp add: make_request_def get_random_user_agent_def hs1_def v1_def)
  have m2: "make_request (env\<lparr>rng := r2\<rparr>) u m hs kw w2 =
      (if upper (unicode_upper env) m = lit ''GET'' then
         send_request (env\<lparr>rng := r2\<rparr>) \<lparr>verb = GET, url = u, headers = hs2, timeout = 120, body = kw\<rparr> v2
       else if upper (unicode_upper env) m = lit ''POST'' then
         send_request (env\<lparr>rng := r2\<rparr>) \<lparr>verb = POST, url = u, headers = hs2, timeout = 120, body = kw\<rparr> v2
       else (None, log ERROR ''Unsupported HTTP method: {method}'' [AStr m] v2))"
    by (simp add: make_request_def get_random_user_agent_def hs2_def v2_def)
  have sr: "fst (send_request (env\<lparr>rng := r1\<rparr>) \<lparr>verb = vb, url = u, headers = hs1, timeout = 120, body = kw\<rparr> v1) =
            fst (send_request (env\<lparr>rng := r2\<rparr>) \<lparr>verb = vb, url = u, headers = hs2, timeout = 120, body = kw\<rparr> v2) \<and>
            same_since p1 p2
              (snd (send_request (env\<lparr>rng := r1\<rparr>) \<lparr>verb = vb, url = u, headers = hs1, timeout = 120, body = kw\<rparr> v1))
              (snd (send_request (env\<lparr>rng := r2\<rparr>) \<lparr>verb = vb, url = u, headers = hs2, timeout = 120, body = kw\<rparr> v2))"
    for vb
    using agree_send_request [OF assms wa [of vb], of p1 p2 r1 r2] Rv by (simp add: agree_def)
  show "fst (make_request (env\<lparr>rng := r1\<rparr>) u m hs kw w1) =
        fst (make_request (env\<lparr>rng := r2\<rparr>) u m hs kw w2) \<and>
        same_since p1 p2 (snd (make_request (env\<lparr>rng := r1\<rparr>) u m hs kw w1))
                         (snd (make_request (env\<lparr>rng := r2\<rparr>) u m hs kw w2))"
    unfolding m1 m2 using sr [of GET] sr [of POST] Rv by (simp add: same_since_log)
qed

lemma agree_send_telegram_message:
  assumes "unchanged_world env"
  shows "agree p1 p2 (send_telegram_message (env\<lparr>rng := r1\<rparr>) cfg m)
                     (send_telegram_message (env\<lparr>rng := r2\<rparr>) cfg m)"
proof (rule agreeI)
  fix w1 w2
  assume R: "same_since p1 p2 w1 w2"
  show "fst (send_telegram_message (env\<lparr>rng := r1\<rparr>) cfg m w1) =
        fst (send_telegram_message (env\<lparr>rng := r2\<rparr>) cfg m w2) \<and>
        same_since p1 p2 (snd (send_telegram_message (env\<lparr>rng := r1\<rparr>) cfg m w1))
                         (snd (send_telegram_message (env\<lparr>rng := r2\<rparr>) cfg m w2))"
  proof (cases "BOT_TOKEN cfg = [] \<or> CHAT_ID cfg = []")
    case True
    with R show ?thesis by (simp add: send_telegram_message_def same_since_log)
  next
    case False
    from agree_make_request [OF assms]
      same_since_log [OF R, of INFO "''Sending text message to Telegram...''" "[]"]
    obtain x v1 v2 where
      "make_request (env\<lparr>rng := r1\<rparr>) (TELEGRAM_SEND_MESSAGE_URL cfg) (lit ''POST'') []
               (Data_form [(lit ''chat_id'', CHAT_ID cfg), (lit ''text'', m),
                           (lit ''parse_mode'', lit ''Markdown'')])
               (log INFO ''Sending text message to Telegram...'' [] w1) = (x, v1)"
      "make_request (env\<lparr>rng := r2\<rparr>) (TELEGRAM_SEND_MESSAGE_URL cfg) (lit ''POST'') []
               (Data_form [(lit ''chat_id'', CHAT_ID cfg), (lit ''text'', m),
                           (lit ''parse_mode'', lit ''Markdown'')])
               (log INFO ''Sending text message to Telegram...'' [] w2) = (x, v2)"
      "same_since p1 p2 v1 v2"
      by (rule agreeE)
    with False show ?thesis
      by (simp add: send_telegram_message_def same_since_log split: option.splits sum.splits)
  qed
qed

lemma agreeD:
  assumes "agree p1 p2 f1 f2" "same_since p1 p2 w1 w2"
  shows "fst (f1 w1) = fst (f2 w2)" "same_since p1 p2 (snd (f1 w1)) (snd (f2 w2))"
  using assms by (simp_all add: agree_def)

lemma agree_send_telegram_audio_try:
  assumes "unchanged_world env"
  shows "agree p1 p2 (send_telegram_audio_try (env\<lparr>rng := r1\<rparr>) cfg a cap)
                     (send_telegram_audio_try (env\<lparr>rng := r2\<rparr>) cfg a cap)"
proof (rule agreeI)
  fix w1 w2
  assume R: "same_since p1 p2 w1 w2"
  let ?req = "\<lparr>verb = POST, url = TELEGRAM_SEND_AUDIO_URL cfg, headers = [], timeout = 60,
                 body = Multipart
                   [(lit ''audio'', lit ''daily_news_summary.mp3'', a, lit ''audio/mpeg'')]
                   [(lit ''chat_id'', CHAT_ID cfg), (lit ''caption'', take 1024 cap)]\<rparr>"
  from assms have h: "http env (events w1) ?req = http env (events w2) ?req"
    by (simp add: unchanged_world_def)
  have R1: "same_since p1 p2 (emit (Request ?req) w1) (emit (Request ?req) w2)"
    using R by (simp add: same_since_emit)
  show "fst (send_telegram_audio_try (env\<lparr>rng := r1\<rparr>) cfg a cap w1) =
        fst (send_telegram_audio_try (env\<lparr>rng := r2\<rparr>) cfg a cap w2) \<and>
        same_since p1 p2 (snd (send_telegram_audio_try (env\<lparr>rng := r1\<rparr>) cfg a cap w1))
                         (snd (send_telegram_audio_try (env\<lparr>rng := r2\<rparr>) cfg a cap w2))"
    using h R1
    by (simp add: send_telegram_audio_try_def Let_def same_since_log split: sum.splits)
qed

lemma agree_send_telegram_audio:
  assumes "unchanged_world env"
  shows "agree p1 p2 (send_telegram_audio (env\<lparr>rng := r1\<rparr>) cfg a cap)
                     (send_telegram_audio (env\<lparr>rng := r2\<rparr>) cfg a cap)"
proof (rule agreeI)
  fix w1 w2
  assume R: "same_since p1 p2 w1 w2"
  let ?t1 = "send_telegram_audio_try (env\<lparr>rng := r1\<rparr>) cfg a cap
               (log INFO ''Sending audio to Telegram...'' [] w1)"
  let ?t2 = "send_telegram_audio_try (env\<lparr>rng := r2\<rparr>) cfg a cap
               (log INFO ''Sending audio to Telegram...'' [] w2)"
  have "fst ?t1 = fst ?t2" "same_since p1 p2 (snd ?t1) (snd ?t2)"
    using agreeD [OF agree_send_telegram_audio_try [OF assms] same_since_log [OF R]] by simp_all
  then show "fst (send_telegram_audio (env\<lparr>rng := r1\<rparr>) cfg a cap w1) =
        fst (send_telegram_audio (env\<lparr>rng := r2\<rparr>) cfg a cap w2) \<and>
        same_since p1 p2 (snd (send_telegram_audio (env\<lparr>rng := r1\<rparr>) cfg a cap w1))
                         (snd (send_telegram_audio (env\<lparr>rng := r2\<rparr>) cfg a cap w2))"
    using R
    by (cases ?t1; cases ?t2)
       (simp add: send_telegram_audio_def same_since_log split: sum.splits)
qed

lemma agree_text_to_speech:
  assumes "unchanged_world env"
  shows "agree p1 p2 (text_to_speech_elevenlabs (env\<lparr>rng := r1\<rparr>) cfg t)
                     (text_to_speech_elevenlabs (env\<lparr>rng := r2\<rparr>) cfg t)"
proof (rule agreeI)
  fix w1 w2
  assume R: "same_since p1 p2 w1 w2"
  let ?mr = "\<lambda>e w. make_request e (ELEVENLABS_API_URL cfg) (lit ''POST'')
               [(lit ''Accept'', lit ''audio/mpeg''),
                (lit ''Content-Type'', lit ''application/json''),
                (lit ''xi-api-key'', ELEVENLABS_API_KEY cfg)]
               (Json_kw (JDict
                  [(lit ''text'', JStr t),
                   (lit ''model_id'', JStr (lit ''eleven_multilingual_v2'')),
                   (lit ''voice_settings'',
                    JDict [(lit ''stability'', JFloat (1 / 2)),
                           (lit ''similarity_boost'', JFloat (3 / 4))])]))
               (log INFO ''Sending text to ElevenLabs for speech synthesis...'' [] w)"
  have "fst (?mr (env\<lparr>rng := r1\<rparr>) w1) = fst (?mr (env\<lparr>rng := r2\<rparr>) w2)"
    "same_since p1 p2 (snd (?mr (env\<lparr>rng := r1\<rparr>) w1)) (snd (?mr (env\<lparr>rng := r2\<rparr>) w2))"
    using agreeD [OF agree_make_request [OF assms] same_since_log [OF R]] by simp_all
  then show "fst (text_to_speech_elevenlabs (env\<lparr>rng := r1\<rparr>) cfg t w1) =
        fst (text_to_speech_elevenlabs (env\<lparr>rng := r2\<rparr>) cfg t w2) \<and>
        same_since p1 p2 (snd (text_to_speech_elevenlabs (env\<lparr>rng := r1\<rparr>) cfg t w1))
                         (snd (text_to_speech_elevenlabs (env\<lparr>rng := r2\<rparr>) cfg t w2))"
    using R
    by (cases "?mr (env\<lparr>rng := r1\<rparr>) w1"; cases "?mr (env\<lparr>rng := r2\<rparr>) w2")
       (simp add: text_to_speech_elevenlabs_def same_since_log split: option.splits)
qed

lemma agree_and_then:
  assumes "agree p1 p2 m1 m2" "\<And>x. agree p1 p2 (f1 x) (f2 x)"
  shows "agree p1 p2 (\<lambda>w. and_then (m1 w) f1) (\<lambda>w. and_then (m2 w) f2)"
proof (rule agreeI)
  fix w1 w2
  assume R: "same_since p1 p2 w1 w2"
  from assms(1) R obtain x v1 v2 where m: "m1 w1 = (x, v1)" "m2 w2 = (x, v2)"
    and Rv: "same_since p1 p2 v1 v2" by (rule agreeE)
  show "fst (and_then (m1 w1) f1) = fst (and_then (m2 w2) f2) \<and>
        same_since p1 p2 (snd (and_then (m1 w1) f1)) (snd (and_then (m2 w2) f2))"
  proof (cases x)
    case (Inl e)
    with m Rv show ?thesis by (simp add: and_then_def)
  next
    case (Inr y)
    with m agreeD [OF assms(2) Rv, of y] show ?thesis by (simp add: and_then_def)
  qed
qed

lemma agree_after_log:
  assumes "agree p1 p2 f1 f2"
  shows "agree p1 p2 (\<lambda>w. f1 (log lv m a w)) (\<lambda>w. f2 (log lv m a w))"
  using assms by (simp add: agree_def same_since_log)

lemma agree_return_log:
  "agree p1 p2 (\<lambda>w. (x, log lv m a w)) (\<lambda>w. (x, log lv m a w))"
  by (simp add: agree_def same_since_log)

lemma agree_return: "agree p1 p2 (\<lambda>w. (x, w)) (\<lambda>w. (x, w))"
  by (simp add: agree_def)

lemma agree_send_parts:
  assumes "unchanged_world env"
  shows "agree p1 p2 (send_parts (env\<lparr>rng := r1\<rparr>) cfg narrative offsets)
                     (send_parts (env\<lparr>rng := r2\<rparr>) cfg narrative offsets)"
proof (induction offsets)
  case Nil
  show ?case by (simp add: agree_def)
next
  case (Cons i offsets)
  have k: "agree p1 p2
             (\<lambda>w. send_parts (env\<lparr>rng := r1\<rparr>) cfg narrative offsets (sleep 1 w))
             (\<lambda>w. send_parts (env\<lparr>rng := r2\<rparr>) cfg narrative offsets (sleep 1 w))"
    using Cons.IH by (simp add: agree_def same_since_sleep)
  have "agree p1 p2
          (\<lambda>w. and_then (send_telegram_message (env\<lparr>rng := r1\<rparr>) cfg
                            (lit ''[Part '' @ str_nat (i div max_len + 1) @ lit '']\<newline>'' @
                             take max_len (drop i narrative)) w)
                  (\<lambda>sent w1. send_parts (env\<lparr>rng := r1\<rparr>) cfg narrative offsets (sleep 1 w1)))
          (\<lambda>w. and_then (send_telegram_message (env\<lparr>rng := r2\<rparr>) cfg
                            (lit ''[Part '' @ str_nat (i div max_len + 1) @ lit '']\<newline>'' @
                             take max_len (drop i narrative)) w)
                  (\<lambda>sent w1. send_parts (env\<lparr>rng := r2\<rparr>) cfg narrative offsets (sleep 1 w1)))"
    by (rule agree_and_then [OF agree_send_telegram_message [OF assms] k])
  then show ?case by (simp add: agree_def)
qed

lemma agree_send_text_narrative:
  assumes "unchanged_world env"
  shows "agree p1 p2 (send_text_narrative (env\<lparr>rng := r1\<rparr>) cfg narrative)
                     (send_text_narrative (env\<lparr>rng := r2\<rparr>) cfg narrative)"
proof -
  let ?body = "\<lambda>e w. if length narrative > max_len then
          send_parts e cfg narrative (range_step (length narrative) max_len)
            (log INFO ''Sending text narrative to Telegram as fallback.'' [] w)
        else
          and_then
            (send_telegram_message e cfg narrative
               (log INFO ''Sending text narrative to Telegram as fallback.'' [] w))
            (\<lambda>sent w1. (Inr (), w1))"
  have b: "agree p1 p2 (?body (env\<lparr>rng := r1\<rparr>)) (?body (env\<lparr>rng := r2\<rparr>))"
  proof (cases "length narrative > max_len")
    case True
    with agree_after_log [OF agree_send_parts [OF assms]] show ?thesis by simp
  next
    case False
    have "agree p1 p2
            (\<lambda>w. and_then (send_telegram_message (env\<lparr>rng := r1\<rparr>) cfg narrative
               (log INFO ''Sending text narrative to Telegram as fallback.'' [] w))
               (\<lambda>sent w1. (Inr (), w1)))
            (\<lambda>w. and_then (send_telegram_message (env\<lparr>rng := r2\<rparr>) cfg narrative
               (log INFO ''Sending text narrative to Telegram as fallback.'' [] w))
               (\<lambda>sent w1. (Inr (), w1)))"
      by (rule agree_and_then [OF agree_after_log [OF agree_send_telegram_message [OF assms]]
            agree_return])
    with False show ?thesis by simp
  qed
  have "agree p1 p2
          (\<lambda>w. and_then (?body (env\<lparr>rng := r1\<rparr>) w)
                  (\<lambda>u w1. (Inr (), log INFO ''Text narrative sent to Telegram.'' [] w1)))
          (\<lambda>w. and_then (?body (env\<lparr>rng := r2\<rparr>) w)
                  (\<lambda>u w1. (Inr (), log INFO ''Text narrative sent to Telegram.'' [] w1)))"
    by (rule agree_and_then [OF b agree_return_log])
  then show ?thesis by (simp add: agree_def send_text_narrative_def)
qed

lemma agree_send_audio_summary:
  assumes "unchanged_world env"
  shows "agree p1 p2 (send_audio_summary (env\<lparr>rng := r1\<rparr>) cfg narrative)
                     (send_audio_summary (env\<lparr>rng := r2\<rparr>) cfg narrative)"
proof (rule agreeI)
  fix w1 w2
  assume R: "same_since p1 p2 w1 w2"
  from agree_text_to_speech [OF assms] R
  obtain x v1 v2 where
    t: "text_to_speech_elevenlabs (env\<lparr>rng := r1\<rparr>) cfg narrative w1 = (x, v1)"
       "text_to_speech_elevenlabs (env\<lparr>rng := r2\<rparr>) cfg narrative w2 = (x, v2)"
    and Rv: "same_since p1 p2 v1 v2"
    by (rule agreeE)
  let ?k = "\<lambda>sent w2.
                 if sent then (Inr True, log INFO ''Audio summary sent to Telegram.'' [] w2)
                 else
                   (Inr False,
                    log WARNING ''Failed to send audio summary to Telegram. Will attempt to send text version.'' [] w2)"
  have k: "agree p1 p2 (?k b) (?k b)" for b
    by (simp add: agree_def same_since_log)
  have a: "agree p1 p2
             (\<lambda>w. and_then (send_telegram_audio (env\<lparr>rng := r1\<rparr>) cfg audio_data
                 (lit ''Your 24hr News Summary:\<newline>'' @ audio_caption_summary narrative) w) ?k)
             (\<lambda>w. and_then (send_telegram_audio (env\<lparr>rng := r2\<rparr>) cfg audio_data
                 (lit ''Your 24hr News Summary:\<newline>'' @ audio_caption_summary narrative) w) ?k)"
    for audio_data
    by (rule agree_and_then [OF agree_send_telegram_audio [OF assms] k])
  show "fst (send_audio_summary (env\<lparr>rng := r1\<rparr>) cfg narrative w1) =
        fst (send_audio_summary (env\<lparr>rng := r2\<rparr>) cfg narrative w2) \<and>
        same_since p1 p2 (snd (send_audio_summary (env\<lparr>rng := r1\<rparr>) cfg narrative w1))
                         (snd (send_audio_summary (env\<lparr>rng := r2\<rparr>) cfg narrative w2))"
  proof (cases x)
    case None
    with t Rv show ?thesis by (simp add: send_audio_summary_def same_since_log)
  next
    case (Some audio_data)
    with t Rv agreeD [OF a [of audio_data] Rv] show ?thesis
      by (simp add: send_audio_summary_def same_since_log)
  qed
qed

lemma agree_deliver_narrative:
  assumes "unchanged_world env"
  shows "agree p1 p2 (deliver_narrative (env\<lparr>rng := r1\<rparr>) cfg narrative)
                     (deliver_narrative (env\<lparr>rng := r2\<rparr>) cfg narrative)"
proof -
  let ?k = "\<lambda>e audio_sent w1.
          and_then
            (if \<not> audio_sent then send_text_narrative e cfg narrative w1 else (Inr (), w1))
            (\<lambda>u w2. (Inr (), log INFO ''News aggregation process finished.'' [] w2))"
  have k: "agree p1 p2 (?k (env\<lparr>rng := r1\<rparr>) b) (?k (env\<lparr>rng := r2\<rparr>) b)" for b
  proof (cases b)
    case True
    then show ?thesis by (simp add: agree_def and_then_def same_since_log)
  next
    case False
    have "agree p1 p2
            (\<lambda>w. and_then (send_text_narrative (env\<lparr>rng := r1\<rparr>) cfg narrative w)
               (\<lambda>u w2. (Inr (), log INFO ''News aggregation process finished.'' [] w2)))
            (\<lambda>w. and_then (send_text_narrative (env\<lparr>rng := r2\<rparr>) cfg narrative w)
               (\<lambda>u w2. (Inr (), log INFO ''News aggregation process finished.'' [] w2)))"
      by (rule agree_and_then [OF agree_send_text_narrative [OF assms] agree_return_log])
    with False show ?thesis by simp
  qed
  have "agree p1 p2
          (\<lambda>w. and_then (send_audio_summary (env\<lparr>rng := r1\<rparr>) cfg narrative
                   (log INFO ''Narrative generated successfully.'' [] w)) (?k (env\<lparr>rng := r1\<rparr>)))
          (\<lambda>w. and_then (send_audio_summary (env\<lparr>rng := r2\<rparr>) cfg narrative
                   (log INFO ''Narrative generated successfully.'' [] w)) (?k (env\<lparr>rng := r2\<rparr>)))"
  proof (rule agreeI)
    fix w1 w2
    assume R: "same_since p1 p2 w1 w2"
    from agree_send_audio_summary [OF assms] same_since_log [OF R]
    obtain x v1 v2 where
      s: "send_audio_summary (env\<lparr>rng := r1\<rparr>) cfg narrative
            (log INFO ''Narrative generated successfully.'' [] w1) = (x, v1)"
         "send_audio_summary (env\<lparr>rng := r2\<rparr>) cfg narrative
            (log INFO ''Narrative generated successfully.'' [] w2) = (x, v2)"
      and Rv: "same_since p1 p2 v1 v2"
      by (rule agreeE)
    show "fst (and_then (send_audio_summary (env\<lparr>rng := r1\<rparr>) cfg narrative
                   (log INFO ''Narrative generated successfully.'' [] w1)) (?k (env\<lparr>rng := r1\<rparr>))) =
          fst (and_then (send_audio_summary (env\<lparr>rng := r2\<rparr>) cfg narrative
                   (log INFO ''Narrative generated successfully.'' [] w2)) (?k (env\<lparr>rng := r2\<rparr>))) \<and>
          same_since p1 p2
            (snd (and_then (send_audio_summary (env\<lparr>rng := r1\<rparr>) cfg narrative
                   (log INFO ''Narrative generated successfully.'' [] w1)) (?k (env\<lparr>rng := r1\<rparr>))))
            (snd (and_then (send_audio_summary (env\<lparr>rng := r2\<rparr>) cfg narrative
                   (log INFO ''Narrative generated successfully.'' [] w2)) (?k (env\<lparr>rng := r2\<rparr>))))"
    proof (cases x)
      case (Inl e)
      with s Rv show ?thesis by (simp add: and_then_def)
    next
      case (Inr b)
      with s agreeD [OF k [of b] Rv] show ?thesis by (simp add: and_then_def)
    qed
  qed
  then show ?thesis by (simp add: agree_def deliver_narrative_def)
qed

lemma agree_filter_recent:
  "agree p1 p2 (filter_recent (env\<lparr>rng := r1\<rparr>) c es acc)
               (filter_recent (env\<lparr>rng := r2\<rparr>) c es acc)"
proof (induction es arbitrary: acc)
  case Nil
  show ?case by (simp add: agree_def)
next
  case (Cons e es)
  show ?case
  proof (rule agreeI)
    fix w1 w2
    assume R: "same_since p1 p2 w1 w2"
    show "fst (filter_recent (env\<lparr>rng := r1\<rparr>) c (e # es) acc w1) =
          fst (filter_recent (env\<lparr>rng := r2\<rparr>) c (e # es) acc w2) \<and>
          same_since p1 p2 (snd (filter_recent (env\<lparr>rng := r1\<rparr>) c (e # es) acc w1))
                           (snd (filter_recent (env\<lparr>rng := r2\<rparr>) c (e # es) acc w2))"
    proof (cases "entry_time e")
      case None
      with agreeD [OF Cons.IH same_since_log [OF R]] show ?thesis by simp
    next
      case (Some st)
      show ?thesis
      proof (cases "mktime env st")
        case (Inl x)
        with Some R show ?thesis by simp
      next
        case (Inr secs)
        show ?thesis
        proof (cases "fromtimestamp_utc secs")
          case (Inl x)
          with Some \<open>mktime env st = Inr secs\<close> R show ?thesis by simp
        next
          case d: (Inr entry_date)
          show ?thesis
          proof (cases "c \<le> entry_date")
            case True
            with Some Inr d agreeD [OF Cons.IH same_since_log [OF R]] show ?thesis by simp
          next
            case False
            with Some Inr d agreeD [OF Cons.IH R] show ?thesis by simp
          qed
        qed
      qed
    qed
  qed
qed

lemma agree_fetch_rss_entries:
  assumes "unchanged_world env"
  shows "agree p1 p2 (fetch_rss_entries (env\<lparr>rng := r1\<rparr>) rss_url)
                     (fetch_rss_entries (env\<lparr>rng := r2\<rparr>) rss_url)"
proof (rule agreeI)
  fix w1 w2
  assume R: "same_since p1 p2 w1 w2"
  let ?l1 = "log INFO ''Fetching RSS feed from: {rss_url}'' [AStr rss_url] w1"
  let ?l2 = "log INFO ''Fetching RSS feed from: {rss_url}'' [AStr rss_url] w2"
  let ?a1 = "USER_AGENTS ! (r1 (draws w1) mod length USER_AGENTS)"
  let ?a2 = "USER_AGENTS ! (r2 (draws w2) mod length USER_AGENTS)"
  define feed where "feed = feedparser_parse env (events ?l1) rss_url ?a1"
  have feed2: "feedparser_parse env (events ?l2) rss_url ?a2 = feed"
    using assms by (simp add: unchanged_world_def feed_def)
  define v1 where "v1 = emit (Feedparser_parse rss_url ?a1) (?l1\<lparr>draws := Suc (draws w1)\<rparr>)"
  define v2 where "v2 = emit (Feedparser_parse rss_url ?a2) (?l2\<lparr>draws := Suc (draws w2)\<rparr>)"
  have Rv: "same_since p1 p2 v1 v2"
    unfolding v1_def v2_def
    by (intro same_since_emit same_since_draws same_since_log R) simp
  define u1 where "u1 = (if bozo feed then
                       log WARNING ''RSS feed may be malformed. Bozo reason: {feed_data.bozo_exception}''
                         [AStr (bozo_exception feed)] v1
                     else v1)"
  define u2 where "u2 = (if bozo feed then
                       log WARNING ''RSS feed may be malformed. Bozo reason: {feed_data.bozo_exception}''
                         [AStr (bozo_exception feed)] v2
                     else v2)"
  have Ru: "same_since p1 p2 u1 u2"
    using Rv by (simp add: u1_def u2_def same_since_log)
  let ?k = "\<lambda>recent_entries w4.
                     (Inr recent_entries,
                      log INFO ''Found {len(recent_entries)} recent entries from the last 24 hours.''
                        [ANat (length recent_entries)] w4)"
  have f1: "fetch_rss_entries (env\<lparr>rng := r1\<rparr>) rss_url w1 =
      (if entries feed = [] then (Inr [], log INFO ''No entries found in the RSS feed.'' [] u1)
       else and_then (filter_recent (env\<lparr>rng := r1\<rparr>) (utcnow env - one_day) (entries feed) [] u1) ?k)"
    by (simp add: fetch_rss_entries_def get_random_user_agent_def Let_def draws_log
        feed_def u1_def v1_def)
  have f2: "fetch_rss_entries (env\<lparr>rng := r2\<rparr>) rss_url w2 =
      (if entries feed = [] then (Inr [], log INFO ''No entries found in the RSS feed.'' [] u2)
       else and_then (filter_recent (env\<lparr>rng := r2\<rparr>) (utcnow env - one_day) (entries feed) [] u2) ?k)"
    by (simp add: fetch_rss_entries_def get_random_user_agent_def Let_def draws_log
        feed2 u2_def v2_def)
  have k: "agree p1 p2 (?k x) (?k x)" for x
    by (simp add: agree_def same_since_log)
  have "agree p1 p2
          (\<lambda>w. and_then (filter_recent (env\<lparr>rng := r1\<rparr>) (utcnow env - one_day) (entries feed) [] w) ?k)
          (\<lambda>w. and_then (filter_recent (env\<lparr>rng := r2\<rparr>) (utcnow env - one_day) (entries feed) [] w) ?k)"
    by (rule agree_and_then [OF agree_filter_recent k])
  from agreeD [OF this Ru] Ru
  show "fst (fetch_rss_entries (env\<lparr>rng := r1\<rparr>) rss_url w1) =
        fst (fetch_rss_entries (env\<lparr>rng := r2\<rparr>) rss_url w2) \<and>
        same_since p1 p2 (snd (fetch_rss_entries (env\<lparr>rng := r1\<rparr>) rss_url w1))
                         (snd (fetch_rss_entries (env\<lparr>rng := r2\<rparr>) rss_url w2))"
    unfolding f1 f2 by (simp add: same_since_log)
qed

lemma extract_text_try_rng:
  "extract_text_try (env\<lparr>rng := r\<rparr>) u resp w = extract_text_try env u resp w"
  by (simp add: extract_text_try_def find_main_content_def
      cong: sum.case_cong option.case_cong if_cong)

lemma agree_extract_text_try:
  "agree p1 p2 (extract_text_try env u r) (extract_text_try env u r)"
proof (rule agreeI)
  fix w1 w2
  assume R: "same_since p1 p2 w1 w2"
  note l = same_since_log [OF R]
  note ll = same_since_log [OF same_since_log [OF R]]
  show "fst (extract_text_try env u r w1) = fst (extract_text_try env u r w2) \<and>
        same_since p1 p2 (snd (extract_text_try env u r w1)) (snd (extract_text_try env u r w2))"
  proof (cases "BeautifulSoup env (content r)")
    case (Inl x)
    with R show ?thesis by (simp add: extract_text_try_def)
  next
    case soup: (Inr soup)
    show ?thesis
    proof (cases "soup_find env soup (lit ''section'') (Some (lit ''entry-body''))")
      case (Inl x)
      with soup R show ?thesis by (simp add: extract_text_try_def)
    next
      case eb: (Inr eb)
      show ?thesis
      proof (cases eb)
        case (Some t)
        with soup eb R l show ?thesis
          by (cases "get_text env t") (simp_all add: extract_text_try_def)
      next
        case None
        show ?thesis
        proof (cases "find_main_content env soup")
          case (Inl x)
          with soup eb None l show ?thesis by (simp add: extract_text_try_def)
        next
          case mc: (Inr mc)
          show ?thesis
          proof (cases mc)
            case None
            with soup eb \<open>eb = None\<close> mc ll show ?thesis by (simp add: extract_text_try_def)
          next
            case (Some t)
            with soup eb \<open>eb = None\<close> mc l ll show ?thesis
              by (cases "get_text env t") (simp_all add: extract_text_try_def)
          qed
        qed
      qed
    qed
  qed
qed

lemma agree_extract_text_from_url:
  assumes "unchanged_world env"
  shows "agree p1 p2 (extract_text_from_url (env\<lparr>rng := r1\<rparr>) u)
                     (extract_text_from_url (env\<lparr>rng := r2\<rparr>) u)"
proof (rule agreeI)
  fix w1 w2
  assume R: "same_since p1 p2 w1 w2"
  from agree_make_request [OF assms]
    same_since_log [OF R, of INFO "''Extracting text from: {article_url}''" "[AStr u]"]
  obtain x v1 v2 where
    m: "make_request (env\<lparr>rng := r1\<rparr>) u (lit ''GET'') [] NoBody
          (log INFO ''Extracting text from: {article_url}'' [AStr u] w1) = (x, v1)"
       "make_request (env\<lparr>rng := r2\<rparr>) u (lit ''GET'') [] NoBody
          (log INFO ''Extracting text from: {article_url}'' [AStr u] w2) = (x, v2)"
    and Rv: "same_since p1 p2 v1 v2"
    by (rule agreeE)
  show "fst (extract_text_from_url (env\<lparr>rng := r1\<rparr>) u w1) =
        fst (extract_text_from_url (env\<lparr>rng := r2\<rparr>) u w2) \<and>
        same_since p1 p2 (snd (extract_text_from_url (env\<lparr>rng := r1\<rparr>) u w1))
                         (snd (extract_text_from_url (env\<lparr>rng := r2\<rparr>) u w2))"
  proof (cases x)
    case None
    with m Rv show ?thesis by (simp add: extract_text_from_url_def)
  next
    case (Some r)
    from agree_extract_text_try Rv
    obtain t u1 u2 where
      e: "extract_text_try env u r v1 = (t, u1)" "extract_text_try env u r v2 = (t, u2)"
      and Ru: "same_since p1 p2 u1 u2"
      by (rule agreeE)
    with Some m Rv show ?thesis
      by (cases t) (simp_all add: extract_text_from_url_def extract_text_try_rng same_since_log)
  qed
qed

lemma agree_extract_all:
  assumes "unchanged_world env"
  shows "agree p1 p2 (extract_all (env\<lparr>rng := r1\<rparr>) es acc)
                     (extract_all (env\<lparr>rng := r2\<rparr>) es acc)"
proof (induction es arbitrary: acc)
  case Nil
  show ?case by (simp add: agree_def)
next
  case (Cons e es)
  show ?case
  proof (rule agreeI)
    fix w1 w2
    assume R: "same_since p1 p2 w1 w2"
    show "fst (extract_all (env\<lparr>rng := r1\<rparr>) (e # es) acc w1) =
          fst (extract_all (env\<lparr>rng := r2\<rparr>) (e # es) acc w2) \<and>
          same_since p1 p2 (snd (extract_all (env\<lparr>rng := r1\<rparr>) (e # es) acc w1))
                           (snd (extract_all (env\<lparr>rng := r2\<rparr>) (e # es) acc w2))"
    proof (cases "case link e of None \<Rightarrow> None | Some l \<Rightarrow> if l = [] then None else Some l")
      case None
      with agreeD [OF Cons.IH same_since_log [OF R]] show ?thesis by simp
    next
      case lnk: (Some l)
      from agree_extract_text_from_url [OF assms] R
      obtain t v1 v2 where
        x: "extract_text_from_url (env\<lparr>rng := r1\<rparr>) l w1 = (t, v1)"
           "extract_text_from_url (env\<lparr>rng := r2\<rparr>) l w2 = (t, v2)"
        and Rv: "same_since p1 p2 v1 v2"
        by (rule agreeE)
      show ?thesis
      proof (cases t)
        case None
        with lnk x agreeD [OF Cons.IH Rv] show ?thesis by simp
      next
        case (Some found)
        with lnk x agreeD [OF Cons.IH Rv] show ?thesis by simp
      qed
    qed
  qed
qed

lemma agree_narrative_try:
  "agree p1 p2 (narrative_try r) (narrative_try r)"
proof (rule agreeI)
  fix w1 w2
  assume R: "same_since p1 p2 w1 w2"
  note l = same_since_log [OF R]
  show "fst (narrative_try r w1) = fst (narrative_try r w2) \<and>
        same_since p1 p2 (snd (narrative_try r w1)) (snd (narrative_try r w2))"
  proof (cases "json r")
    case (Inl x)
    with R show ?thesis by (simp add: narrative_try_def)
  next
    case d: (Inr d)
    let ?c = "or_raise (py_contains (lit ''choices'') d)
                  (\<lambda>has. if has then
                            or_raise (py_getitem d (lit ''choices''))
                              (\<lambda>choices. Inr (if truthy choices then Some choices else None))
                          else Inr None)"
    show ?thesis
    proof (cases ?c)
      case (Inl x)
      with d R show ?thesis by (simp add: narrative_try_def)
    next
      case c: (Inr co)
      show ?thesis
      proof (cases co)
        case None
        with d c l show ?thesis by (simp add: narrative_try_def)
      next
        case (Some choices)
        let ?f = "or_raise (py_getitem_0 choices)
                       (\<lambda>choice. or_raise (py_getitem choice (lit ''message''))
                          (\<lambda>message. or_raise (py_getitem message (lit ''content''))
                             (\<lambda>narrative. or_raise (py_len narrative)
                                (\<lambda>n. Inr (narrative, n)))))"
        from d c Some R l show ?thesis
          by (cases ?f) (auto simp: narrative_try_def)
      qed
    qed
  qed
qed

lemma agree_get_llm_narrative:
  assumes "unchanged_world env"
  shows "agree p1 p2 (get_llm_narrative (env\<lparr>rng := r1\<rparr>) cfg corpus)
                     (get_llm_narrative (env\<lparr>rng := r2\<rparr>) cfg corpus)"
proof (rule agreeI)
  fix w1 w2
  assume R: "same_since p1 p2 w1 w2"
  define pre where "pre = (\<lambda>w. log INFO ''Sending text to DeepSeek for narrative generation...'' []
                  (if strip corpus = [] then
                     log INFO ''Text corpus is empty. LLM will be prompted accordingly.'' [] w
                   else w))"
  have Rp: "same_since p1 p2 (pre w1) (pre w2)"
    using R by (simp add: pre_def same_since_log)
  from agree_make_request [OF assms] Rp
  obtain x v1 v2 where
    m: "make_request (env\<lparr>rng := r1\<rparr>) DS_API_URL (lit ''POST'')
               [(lit ''Content-Type'', lit ''application/json''),
                (lit ''Authorization'', lit ''Bearer '' @ DS_API_KEY cfg)]
               (Data_dumps
                  (llm_payload
                     (if corpus = []
                      then lit ''No articles were found or text could not be extracted.''
                      else corpus))) (pre w1) = (x, v1)"
       "make_request (env\<lparr>rng := r2\<rparr>) DS_API_URL (lit ''POST'')
               [(lit ''Content-Type'', lit ''application/json''),
                (lit ''Authorization'', lit ''Bearer '' @ DS_API_KEY cfg)]
               (Data_dumps
                  (llm_payload
                     (if corpus = []
                      then lit ''No articles were found or text could not be extracted.''
                      else corpus))) (pre w2) = (x, v2)"
    and Rv: "same_since p1 p2 v1 v2"
    by (rule agreeE)
  have g: "get_llm_narrative e cfg corpus w =
     (if DS_API_KEY cfg = [] then
        (None, log ERROR ''DeepSeek API key not configured.'' [] w)
      else
        case make_request e DS_API_URL (lit ''POST'')
               [(lit ''Content-Type'', lit ''application/json''),
                (lit ''Authorization'', lit ''Bearer '' @ DS_API_KEY cfg)]
               (Data_dumps
                  (llm_payload
                     (if corpus = []
                      then lit ''No articles were found or text could not be extracted.''
                      else corpus)))
               (pre w) of
          (None, w1) \<Rightarrow> (None, log ERROR ''Failed to get response from DeepSeek API.'' [] w1)
        | (Some r, w1) \<Rightarrow>
            if \<not> response_bool r then
              (None, log ERROR ''Failed to get response from DeepSeek API.'' [] w1)
            else
              (case narrative_try r w1 of
                 (Inl x, w2) \<Rightarrow>
                   if is_JSONDecodeError x then
                     (None,
                      log ERROR ''DeepSeek raw response: {response.text}'' [AResponseText r]
                        (log ERROR ''Failed to decode JSON response from DeepSeek: {e}''
                           [AExn x] w2))
                   else
                     (None,
                      log ERROR ''An unexpected error occurred with DeepSeek response processing: {e}''
                        [AExn x] w2)
               | (Inr narrative, w2) \<Rightarrow> (narrative, w2)))" for e :: "('a, 'b, 'c) env" and w
    unfolding get_llm_narrative_def pre_def ..
  show "fst (get_llm_narrative (env\<lparr>rng := r1\<rparr>) cfg corpus w1) =
        fst (get_llm_narrative (env\<lparr>rng := r2\<rparr>) cfg corpus w2) \<and>
        same_since p1 p2 (snd (get_llm_narrative (env\<lparr>rng := r1\<rparr>) cfg corpus w1))
                         (snd (get_llm_narrative (env\<lparr>rng := r2\<rparr>) cfg corpus w2))"
  proof (cases "DS_API_KEY cfg = []")
    case True
    with R show ?thesis by (simp add: get_llm_narrative_def same_since_log)
  next
    case False
    show ?thesis
    proof (cases x)
      case None
      with False Rv show ?thesis
        unfolding g m by (simp add: same_since_log)
    next
      case (Some r)
      from agree_narrative_try Rv
      obtain t u1 u2 where
        e: "narrative_try r v1 = (t, u1)" "narrative_try r v2 = (t, u2)"
        and Ru: "same_since p1 p2 u1 u2"
        by (rule agreeE)
      with False Some Rv show ?thesis
        unfolding g m by (cases t) (simp_all add: same_since_log)
    qed
  qed
qed

lemma agree_notify:
  assumes "unchanged_world env"
  shows "agree p1 p2
           (\<lambda>w. and_then (send_telegram_message (env\<lparr>rng := r1\<rparr>) cfg m (log lv t a w))
                   (\<lambda>sent w'. (Inr (), w')))
           (\<lambda>w. and_then (send_telegram_message (env\<lparr>rng := r2\<rparr>) cfg m (log lv t a w))
                   (\<lambda>sent w'. (Inr (), w')))"
  by (rule agree_and_then [OF agree_after_log [OF agree_send_telegram_message [OF assms]]
        agree_return])

lemma agree_main:
  assumes "unchanged_world env"
  shows "agree p1 p2 (main (env\<lparr>rng := r1\<rparr>) cfg rss_url) (main (env\<lparr>rng := r2\<rparr>) cfg rss_url)"
proof -
  let ?after = "\<lambda>e recent_entries w1.
             if recent_entries = [] then
               and_then
                 (send_telegram_message e cfg
                    (lit ''No new articles found in the RSS feed in the last 24 hours.'')
                    (log INFO ''No recent articles found in the RSS feed. Nothing to process.'' [] w1))
                 (\<lambda>sent w2. (Inr (), w2))
             else
               case extract_all e recent_entries [] w1 of
                 (all_extracted_text, w2) \<Rightarrow>
                   if all_extracted_text = [] then
                     and_then
                       (send_telegram_message e cfg
                          (lit ''Found recent articles, but could not extract text content.'')
                          (log INFO ''No text could be extracted from recent articles.'' [] w2))
                       (\<lambda>sent w3. (Inr (), w3))
                   else
                     case get_llm_narrative e cfg (concat all_extracted_text)
                            (log INFO ''Total length of extracted text corpus: {len(full_text_corpus)}''
                               [ANat (length (concat all_extracted_text))] w2) of
                       (narrative, w3) \<Rightarrow>
                         if \<not> (case narrative of None \<Rightarrow> False | Some v \<Rightarrow> truthy v) then
                           and_then
                             (send_telegram_message e cfg
                                (lit ''Failed to generate an AI news summary. No update could be produced.'')
                                (log ERROR ''Failed to generate narrative from LLM. Sending raw text (if short) or error.'' [] w3))
                             (\<lambda>sent w4. (Inr (), w4))
                         else
                           (case narrative of
                              Some (JStr s) \<Rightarrow> deliver_narrative e cfg s w3
                            | other \<Rightarrow>
                                (Inl AttributeError,
                                 log INFO ''Narrative generated successfully.'' [] w3))"
  have after: "agree p1 p2 (?after (env\<lparr>rng := r1\<rparr>) es) (?after (env\<lparr>rng := r2\<rparr>) es)" for es
  proof (cases "es = []")
    case True
    with agree_notify [OF assms] show ?thesis by simp
  next
    case False
    show ?thesis
    proof (rule agreeI)
      fix w1 w2
      assume R: "same_since p1 p2 w1 w2"
      from agree_extract_all [OF assms] R
      obtain ts v1 v2 where
        x: "extract_all (env\<lparr>rng := r1\<rparr>) es [] w1 = (ts, v1)"
           "extract_all (env\<lparr>rng := r2\<rparr>) es [] w2 = (ts, v2)"
        and Rv: "same_since p1 p2 v1 v2"
        by (rule agreeE)
      show "fst (?after (env\<lparr>rng := r1\<rparr>) es w1) = fst (?after (env\<lparr>rng := r2\<rparr>) es w2) \<and>
            same_since p1 p2 (snd (?after (env\<lparr>rng := r1\<rparr>) es w1))
                             (snd (?after (env\<lparr>rng := r2\<rparr>) es w2))"
      proof (cases "ts = []")
        case True
        with False x agreeD [OF agree_notify [OF assms] Rv] show ?thesis by simp
      next
        case ts: False
        from agree_get_llm_narrative [OF assms]
          same_since_log [OF Rv, of INFO
            "''Total length of extracted text corpus: {len(full_text_corpus)}''"
            "[ANat (length (concat ts))]"]
        obtain n u1 u2 where
          g: "get_llm_narrative (env\<lparr>rng := r1\<rparr>) cfg (concat ts)
                (log INFO ''Total length of extracted text corpus: {len(full_text_corpus)}''
                   [ANat (length (concat ts))] v1) = (n, u1)"
             "get_llm_narrative (env\<lparr>rng := r2\<rparr>) cfg (concat ts)
                (log INFO ''Total length of extracted text corpus: {len(full_text_corpus)}''
                   [ANat (length (concat ts))] v2) = (n, u2)"
          and Ru: "same_since p1 p2 u1 u2"
          by (rule agreeE)
        show ?thesis
        proof (cases "case n of None \<Rightarrow> False | Some v \<Rightarrow> truthy v")
          case nt: False
          with False ts x g agreeD [OF agree_notify [OF assms] Ru] show ?thesis by simp
        next
          case tr: True
          then obtain v where v: "n = Some v" by (cases n) simp_all
          show ?thesis
          proof (cases "\<exists>s. v = JStr s")
            case True
            then obtain s where "v = JStr s" ..
            with False ts x g tr v agreeD [OF agree_deliver_narrative [OF assms] Ru]
            show ?thesis by simp
          next
            case nostr: False
            with False ts x g tr v same_since_log [OF Ru] show ?thesis
              by (cases v) simp_all
          qed
        qed
      qed
    qed
  qed
  have "agree p1 p2
          (\<lambda>w. and_then (fetch_rss_entries (env\<lparr>rng := r1\<rparr>) rss_url
                            (log INFO ''Starting news aggregation process...'' [] w))
                  (?after (env\<lparr>rng := r1\<rparr>)))
          (\<lambda>w. and_then (fetch_rss_entries (env\<lparr>rng := r2\<rparr>) rss_url
                            (log INFO ''Starting news aggregation process...'' [] w))
                  (?after (env\<lparr>rng := r2\<rparr>)))"
    by (rule agree_and_then [OF agree_after_log [OF agree_fetch_rss_entries [OF assms]] after])
  then show ?thesis
    by (simp add: agree_def main_def same_since_log same_since_emit)
qed

text \<open>
  C9, as the code has it. In an unchanged world (the reply to a request depends on the
  request alone, its client-identity header apart, and the feed on its URL alone), two
  runs that read the same clock deliver the same content: whatever client identities
  the two runs draw, and whatever states they start from, they end the same way and add
  the same actions to what the chat has seen.
\<close>

theorem runs_deliver_the_same:
  assumes "unchanged_world env"
  shows "fst (main (env\<lparr>rng := r1\<rparr>) cfg rss_url w1) = fst (main (env\<lparr>rng := r2\<rparr>) cfg rss_url w2) \<and>
         (\<exists>new.
            actions cfg (events (snd (main (env\<lparr>rng := r1\<rparr>) cfg rss_url w1))) =
              actions cfg (events w1) @ new \<and>
            actions cfg (events (snd (main (env\<lparr>rng := r2\<rparr>) cfg rss_url w2))) =
              actions cfg (events w2) @ new)"
proof -
  note a = agreeD [OF agree_main [OF assms, of "events w1" "events w2" r1 cfg rss_url r2]
      same_since_start]
  from a(1) same_since_actions [OF a(2)] show ?thesis by simp
qed

lemma actions_make_request_NoBody:
  "actions cfg (events (snd (make_request env u m hs NoBody w))) = actions cfg (events w)"
  by (simp add: make_request_def actions_send_request get_random_user_agent_def actions_Cons
      actions_Nil actions_log split: prod.splits)

lemma actions_extract_text_try:
  "actions cfg (events (snd (extract_text_try env u r w))) = actions cfg (events w)"
proof (cases "BeautifulSoup env (content r)")
  case (Inl x)
  then show ?thesis by (simp add: extract_text_try_def)
next
  case soup: (Inr soup)
  show ?thesis
  proof (cases "soup_find env soup (lit ''section'') (Some (lit ''entry-body''))")
    case (Inl x)
    with soup show ?thesis by (simp add: extract_text_try_def)
  next
    case eb: (Inr eb)
    show ?thesis
    proof (cases eb)
      case (Some t)
      with soup eb show ?thesis
        by (cases "get_text env t") (simp_all add: extract_text_try_def actions_log)
    next
      case None
      show ?thesis
      proof (cases "find_main_content env soup")
        case (Inl x)
        with soup eb None show ?thesis by (simp add: extract_text_try_def actions_log)
      next
        case mc: (Inr mc)
        show ?thesis
        proof (cases mc)
          case None
          with soup eb \<open>eb = None\<close> mc show ?thesis
            by (simp add: extract_text_try_def actions_log)
        next
          case (Some t)
          with soup eb \<open>eb = None\<close> mc show ?thesis
            by (cases "get_text env t") (simp_all add: extract_text_try_def actions_log)
        qed
      qed
    qed
  qed
qed

lemma actions_extract_text_from_url:
  "actions cfg (events (snd (extract_text_from_url env u w))) = actions cfg (events w)"
proof -
  let ?mr = "make_request env u (lit ''GET'') [] NoBody
               (log INFO ''Extracting text from: {article_url}'' [AStr u] w)"
  obtain x v where m: "?mr = (x, v)" by (cases ?mr)
  have v: "actions cfg (events v) = actions cfg (events w)"
    using actions_make_request_NoBody [of cfg env u "lit ''GET''" "[]"
        "log INFO ''Extracting text from: {article_url}'' [AStr u] w"] m
    by (simp add: actions_log)
  show ?thesis
  proof (cases x)
    case None
    with m v show ?thesis by (simp add: extract_text_from_url_def)
  next
    case (Some r)
    obtain t v' where e: "extract_text_try env u r v = (t, v')"
      by (cases "extract_text_try env u r v")
    with actions_extract_text_try [of cfg env u r v] v
    have "actions cfg (events v') = actions cfg (events w)" by simp
    with Some m v e show ?thesis
      by (cases t) (simp_all add: extract_text_from_url_def actions_log)
  qed
qed

lemma actions_extract_all:
  "actions cfg (events (snd (extract_all env es acc w))) = actions cfg (events w)"
proof (induction es arbitrary: acc w)
  case Nil
  show ?case by simp
next
  case (Cons e es)
  show ?case
  proof (cases "case link e of None \<Rightarrow> None | Some l \<Rightarrow> if l = [] then None else Some l")
    case None
    with Cons.IH show ?thesis by (simp add: actions_log)
  next
    case lnk: (Some l)
    obtain t v where x: "extract_text_from_url env l w = (t, v)"
      by (cases "extract_text_from_url env l w")
    with actions_extract_text_from_url [of cfg env l w]
    have v: "actions cfg (events v) = actions cfg (events w)" by simp
    show ?thesis
    proof (cases t)
      case None
      with lnk x v Cons.IH show ?thesis by simp
    next
      case (Some found)
      with lnk x v Cons.IH show ?thesis by simp
    qed
  qed
qed

lemma actions_filter_recent:
  "actions cfg (events (snd (filter_recent env c es acc w))) = actions cfg (events w)"
proof (induction es arbitrary: acc w)
  case Nil
  show ?case by simp
next
  case (Cons e es)
  show ?case
  proof (cases "entry_time e")
    case None
    with Cons.IH show ?thesis by (simp add: actions_log)
  next
    case (Some st)
    show ?thesis
    proof (cases "mktime env st")
      case (Inl x)
      with Some show ?thesis by simp
    next
      case (Inr secs)
      with Some Cons.IH show ?thesis
        by (cases "fromtimestamp_utc secs") (simp_all add: actions_log)
    qed
  qed
qed

lemma actions_fetch_rss_entries:
  "actions cfg (events (snd (fetch_rss_entries env u w))) = actions cfg (events w)"
proof -
  have k: "actions cfg (events (snd (and_then (filter_recent env c es [] v)
             (\<lambda>recent_entries w4.
                     (Inr recent_entries,
                      log INFO ''Found {len(recent_entries)} recent entries from the last 24 hours.''
                        [ANat (length recent_entries)] w4))))) = actions cfg (events v)" for c es v
    using actions_filter_recent [of cfg env c es "[]" v]
    by (cases "filter_recent env c es [] v"; cases "fst (filter_recent env c es [] v)")
       (simp_all add: and_then_def actions_log)
  show ?thesis
    by (simp add: fetch_rss_entries_def get_random_user_agent_def Let_def k actions_log
        events_emit events_log actions_append actions_Cons actions_Nil)
qed

lemma extract_text_from_url_unreachable:
  assumes "\<And>tr req. http env tr req = Inl e"
  shows "fst (extract_text_from_url env u w) = None"
proof -
  have "fst (make_request env u (lit ''GET'') [] NoBody
               (log INFO ''Extracting text from: {article_url}'' [AStr u] w)) = None"
    using assms
    by (simp add: make_request_def upper_GET send_request_def Let_def split: prod.splits)
  then show ?thesis
    by (cases "make_request env u (lit ''GET'') [] NoBody
               (log INFO ''Extracting text from: {article_url}'' [AStr u] w)")
       (simp add: extract_text_from_url_def)
qed

lemma extract_all_unreachable:
  assumes "\<And>tr req. http env tr req = Inl e"
  shows "fst (extract_all env es acc w) = acc"
proof (induction es arbitrary: w)
  case Nil
  show ?case by simp
next
  case (Cons x es)
  show ?case
  proof (cases "case link x of None \<Rightarrow> None | Some l \<Rightarrow> if l = [] then None else Some l")
    case None
    with Cons.IH show ?thesis by simp
  next
    case lnk: (Some l)
    from extract_text_from_url_unreachable [OF assms, of l w]
    obtain v where "extract_text_from_url env l w = (None, v)"
      by (cases "extract_text_from_url env l w") simp
    with lnk Cons.IH show ?thesis by simp
  qed
qed

lemma main_no_recent_entries:
  assumes "BOT_TOKEN cfg \<noteq> []" "CHAT_ID cfg \<noteq> []" "DS_API_KEY cfg \<noteq> []"
    "ELEVENLABS_API_KEY cfg \<noteq> []" "ELEVENLABS_VOICE_ID cfg \<noteq> []"
    and "fst (fetch_rss_entries env rss_url
                (log INFO ''Starting news aggregation process...'' [] w)) = Inr []"
  shows "actions cfg (events (snd (main env cfg rss_url w))) =
           actions cfg (events w) @
           [Send_text (lit ''No new articles found in the RSS feed in the last 24 hours.'')]"
proof -
  let ?f = "fetch_rss_entries env rss_url (log INFO ''Starting news aggregation process...'' [] w)"
  from assms(6) obtain v where f: "?f = (Inr [], v)" by (cases ?f) simp
  with actions_fetch_rss_entries [of cfg env rss_url
      "log INFO ''Starting news aggregation process...'' [] w"]
  have v: "actions cfg (events v) = actions cfg (events w)" by (simp add: actions_log)
  let ?s = "send_telegram_message env cfg
              (lit ''No new articles found in the RSS feed in the last 24 hours.'')
              (log INFO ''No recent articles found in the RSS feed. Nothing to process.'' [] v)"
  have "actions cfg (events (snd ?s)) =
          actions cfg (events w) @
          [Send_text (lit ''No new articles found in the RSS feed in the last 24 hours.'')]"
    by (simp add: actions_send_telegram_message [OF assms(1,2)] actions_log v)
  then show ?thesis using assms(1-5) f
    by (cases ?s; cases "fst ?s") (simp_all add: main_def and_then_def)
qed

lemma main_no_text:
  assumes "BOT_TOKEN cfg \<noteq> []" "CHAT_ID cfg \<noteq> []" "DS_API_KEY cfg \<noteq> []"
    "ELEVENLABS_API_KEY cfg \<noteq> []" "ELEVENLABS_VOICE_ID cfg \<noteq> []"
    and "fst (fetch_rss_entries env rss_url
                (log INFO ''Starting news aggregation process...'' [] w)) = Inr es"
    and "es \<noteq> []"
    and "\<And>v. fst (extract_all env es [] v) = []"
  shows "actions cfg (events (snd (main env cfg rss_url w))) =
           actions cfg (events w) @
           [Send_text (lit ''Found recent articles, but could not extract text content.'')]"
proof -
  let ?f = "fetch_rss_entries env rss_url (log INFO ''Starting news aggregation process...'' [] w)"
  from assms(6) obtain v where f: "?f = (Inr es, v)" by (cases ?f) simp
  with actions_fetch_rss_entries [of cfg env rss_url
      "log INFO ''Starting news aggregation process...'' [] w"]
  have v: "actions cfg (events v) = actions cfg (events w)" by (simp add: actions_log)
  from assms(8) [of v] obtain v' where x: "extract_all env es [] v = ([], v')"
    by (cases "extract_all env es [] v") simp
  with actions_extract_all [of cfg env es "[]" v] v
  have v': "actions cfg (events v') = actions cfg (events w)" by simp
  let ?s = "send_telegram_message env cfg
              (lit ''Found recent articles, but could not extract text content.'')
              (log INFO ''No text could be extracted from recent articles.'' [] v')"
  have "actions cfg (events (snd ?s)) =
          actions cfg (events w) @
          [Send_text (lit ''Found recent articles, but could not extract text content.'')]"
    by (simp add: actions_send_telegram_message [OF assms(1,2)] actions_log v')
  then show ?thesis using assms(1-5,7) f x
    by (cases ?s; cases "fst ?s") (simp_all add: main_def and_then_def)
qed

lemma example_config_keys:
  "DS_API_KEY example_config \<noteq> []" "ELEVENLABS_API_KEY example_config \<noteq> []"
  "ELEVENLABS_VOICE_ID example_config \<noteq> []"
  by (simp_all add: example_config_def lit_def)

lemma unchanged_world_feed_env: "unchanged_world (feed_env now es reply)"
  by (simp add: unchanged_world_def feed_env_simps)

lemma fetch_rss_entries_two_hours:
  "fst (fetch_rss_entries (feed_env 1700007200000000 [entry_at 1700000000] reply) u w) =
     Inr [entry_at 1700000000]"
  by (simp add: fetch_rss_entries_def get_random_user_agent_def Let_def feed_env_simps
      entry_time_entry_at fromtimestamp_utc_def one_day_def fst_and_then_Inr)

lemma fetch_rss_entries_twenty_five_hours:
  "fst (fetch_rss_entries (feed_env 1700090000000000 [entry_at 1700000000] reply) u w) = Inr []"
  by (simp add: fetch_rss_entries_def get_random_user_agent_def Let_def feed_env_simps
      entry_time_entry_at fromtimestamp_utc_def one_day_def fst_and_then_Inr)

theorem runs_deliver_the_same_witness:
  "unchanged_world (feed_env 1700007200000000 [entry_at 1700000000] (Inl ConnectionError)) \<and>
   fst (main ((feed_env 1700007200000000 [entry_at 1700000000] (Inl ConnectionError))\<lparr>rng := \<lambda>k. 0\<rparr>)
          example_config (lit ''http://example.org/feed'') initial_world) =
   fst (main ((feed_env 1700007200000000 [entry_at 1700000000] (Inl ConnectionError))\<lparr>rng := \<lambda>k. 1\<rparr>)
          example_config (lit ''http://example.org/feed'') initial_world) \<and>
   actions example_config
     (events (snd (main ((feed_env 1700007200000000 [entry_at 1700000000]
                            (Inl ConnectionError))\<lparr>rng := \<lambda>k. 0\<rparr>)
                     example_config (lit ''http://example.org/feed'') initial_world))) =
   actions example_config
     (events (snd (main ((feed_env 1700007200000000 [entry_at 1700000000]
                            (Inl ConnectionError))\<lparr>rng := \<lambda>k. 1\<rparr>)
                     example_config (lit ''http://example.org/feed'') initial_world)))"
proof -
  note u = unchanged_world_feed_env [of 1700007200000000 "[entry_at 1700000000]" "Inl ConnectionError"]
  have "fst (main ((feed_env 1700007200000000 [entry_at 1700000000] (Inl ConnectionError))\<lparr>rng := \<lambda>k. 0\<rparr>)
          example_config (lit ''http://example.org/feed'') initial_world) =
   fst (main ((feed_env 1700007200000000 [entry_at 1700000000] (Inl ConnectionError))\<lparr>rng := \<lambda>k. 1\<rparr>)
          example_config (lit ''http://example.org/feed'') initial_world) \<and>
   (\<exists>new.
     actions example_config
       (events (snd (main ((feed_env 1700007200000000 [entry_at 1700000000]
                            (Inl ConnectionError))\<lparr>rng := \<lambda>k. 0\<rparr>)
                     example_config (lit ''http://example.org/feed'') initial_world))) =
       actions example_config (events initial_world) @ new \<and>
     actions example_config
       (events (snd (main ((feed_env 1700007200000000 [entry_at 1700000000]
                            (Inl ConnectionError))\<lparr>rng := \<lambda>k. 1\<rparr>)
                     example_config (lit ''http://example.org/feed'') initial_world))) =
       actions example_config (events initial_world) @ new)"
    by (rule runs_deliver_the_same [OF u])
  with u show ?thesis by auto
qed

text \<open>
  C9 as stated fails: two runs over the same feed document, with the same (unreachable)
  pages and services and the same client identities, deliver different content when the
  clock has moved on. Two hours after the entry's date the run reports that no text could
  be extracted; twenty-five hours after it, that there are no new articles.
\<close>

theorem later_run_delivers_other_content:
  "actions example_config
     (events (snd (main (feed_env 1700007200000000 [entry_at 1700000000] (Inl ConnectionError))
                     example_config (lit ''http://example.org/feed'') initial_world))) =
     [Send_text (lit ''Found recent articles, but could not extract text content.'')] \<and>
   actions example_config
     (events (snd (main (feed_env 1700090000000000 [entry_at 1700000000] (Inl ConnectionError))
                     example_config (lit ''http://example.org/feed'') initial_world))) =
     [Send_text (lit ''No new articles found in the RSS feed in the last 24 hours.'')] \<and>
   lit ''Found recent articles, but could not extract text content.'' \<noteq>
     lit ''No new articles found in the RSS feed in the last 24 hours.''"
proof -
  have 1: "actions example_config
     (events (snd (main (feed_env 1700007200000000 [entry_at 1700000000] (Inl ConnectionError))
                     example_config (lit ''http://example.org/feed'') initial_world))) =
     actions example_config (events initial_world) @
     [Send_text (lit ''Found recent articles, but could not extract text content.'')]"
    by (rule main_no_text [OF example_config_set example_config_keys
          fetch_rss_entries_two_hours _ extract_all_unreachable])
       (simp_all add: feed_env_simps)
  have 2: "actions example_config
     (events (snd (main (feed_env 1700090000000000 [entry_at 1700000000] (Inl ConnectionError))
                     example_config (lit ''http://example.org/feed'') initial_world))) =
     actions example_config (events initial_world) @
     [Send_text (lit ''No new articles found in the RSS feed in the last 24 hours.'')]"
    by (rule main_no_recent_entries [OF example_config_set example_config_keys
          fetch_rss_entries_twenty_five_hours])
  have 3: "lit ''Found recent articles, but could not extract text content.'' \<noteq>
     lit ''No new articles found in the RSS feed in the last 24 hours.''"
    by (simp add: lit_def)
  from 1 2 3 show ?thesis by (simp add: initial_world_def actions_Nil)
qed

end
